theory Spec2Isabelle
  imports Complex_Main "HOL-Library.Word"
begin

unbundle bit_operations_syntax

section \<open>The streaming consumer of \<^verbatim>\<open>static/tcgen/tc_generator.js\<close>\<close>

text \<open>
  The theory embeds the part of \<^verbatim>\<open>tc_generator.js\<close> that reads the generation stream
  (\<^verbatim>\<open>generateViaStream\<close> from the creation of the reader on, lines 329 to 407), the
  helpers it calls (\<^verbatim>\<open>setProgress\<close>, \<^verbatim>\<open>applyDoneUI\<close>) and the download handler
  (\<^verbatim>\<open>downloadBtn\<close> click, \<^verbatim>\<open>downloadCsvNoReload\<close>, \<^verbatim>\<open>base64ToUint8Array\<close>,
  \<^verbatim>\<open>triggerDownload\<close>).

  What belongs to the platform and not to the script is an input of the model:
  \<^item> \<^verbatim>\<open>JSON.parse\<close> is the parameter \<open>parse\<close>; \<open>None\<close> is the thrown SyntaxError;
  \<^item> \<^verbatim>\<open>performance.now()\<close> is the parameter \<open>now\<close>: \<open>now k\<close> is the value of the
    \<open>k\<close>-th reading, \<open>now 0\<close> the one stored in \<^verbatim>\<open>startedAt\<close>;
  \<^item> \<^verbatim>\<open>atob\<close> is the parameter \<open>atob\<close>; \<open>None\<close> is the thrown InvalidCharacterError;
  \<^item> the answer of \<^verbatim>\<open>fetch\<close> and the \<^verbatim>\<open>data-download-url\<close> attribute are arguments of
    the download handler;
  \<^item> the byte stream is a finite list of chunks followed by the end of the stream; a
    read that fails or never comes back is not modelled.

  The streaming \<^verbatim>\<open>TextDecoder("utf-8")\<close> is written out, byte by byte, after the UTF-8
  decoder of the Encoding Standard, with the replacement character for malformed input
  and the byte order mark removed, as the constructor's defaults ask.

  JavaScript numbers are IEEE 754 doubles: every arithmetic operation of the script
  rounds its exact result to the nearest double (\<open>fl\<close>). The page is taken to hold every
  element the script looks up, so the guards \<^verbatim>\<open>if (mInput)\<close>, \<^verbatim>\<open>if (progressBar)\<close> and
  the like are passed. Where the script writes \<^verbatim>\<open>String(v)\<close> into an element, the model
  stores the value \<open>v\<close> itself, and the texts built from the localisation table are kept
  as terms (\<open>ptext\<close>, \<open>notice\<close>).
\<close>

subsection \<open>JavaScript values\<close>

type_synonym byte = "8 word"
type_synonym jsstring = "16 word list"

text \<open>A string literal of the script, as UTF-16 code units.\<close>

definition js :: "string \<Rightarrow> jsstring" where
  "js s = map of_char s"

text \<open>
  What \<^verbatim>\<open>JSON.parse\<close> returns. An object is the list of its own properties, each name
  once. A number is the value of the double the parser has made of the literal; a literal
  too large for a double, which JavaScript reads as \<^verbatim>\<open>Infinity\<close>, has no counterpart.
\<close>

datatype json =
    JNull
  | JBool bool
  | JNum rat
  | JStr jsstring
  | JArr "json list"
  | JObj "(jsstring \<times> json) list"

text \<open>A JavaScript value read from such a tree: \<open>None\<close> is \<^verbatim>\<open>undefined\<close>.\<close>

type_synonym jsval = "json option"

text \<open>
  \<^verbatim>\<open>v.k\<close> for the property names the script reads (\<^verbatim>\<open>type\<close>, \<^verbatim>\<open>done\<close>, \<^verbatim>\<open>total\<close>, ...).
  None of them is defined on a prototype, so a value that is not an object with that own
  property gives \<^verbatim>\<open>undefined\<close>. Reading a property of \<^verbatim>\<open>null\<close> throws and is handled
  where it can happen.
\<close>

fun field :: "json \<Rightarrow> jsstring \<Rightarrow> jsval" where
  "field (JObj kvs) k = map_of kvs k"
| "field _ k = None"

text \<open>ToBoolean: \<^verbatim>\<open>undefined\<close>, \<^verbatim>\<open>null\<close>, \<^verbatim>\<open>false\<close>, \<^verbatim>\<open>0\<close> and \<^verbatim>\<open>""\<close> are falsy.\<close>

fun truthy :: "json \<Rightarrow> bool" where
  "truthy JNull = False"
| "truthy (JBool b) = b"
| "truthy (JNum n) = (n \<noteq> 0)"
| "truthy (JStr s) = (s \<noteq> [])"
| "truthy (JArr _) = True"
| "truthy (JObj _) = True"

text \<open>\<^verbatim>\<open>!a\<close> for a value that may be \<^verbatim>\<open>undefined\<close>.\<close>

definition falsy :: "jsval \<Rightarrow> bool" where
  "falsy a = (case a of None \<Rightarrow> True | Some v \<Rightarrow> \<not> truthy v)"

text \<open>\<^verbatim>\<open>a ? a : undefined\<close>: the value when it is truthy.\<close>

definition when_truthy :: "jsval \<Rightarrow> jsval" where
  "when_truthy a = (if falsy a then None else a)"

text \<open>\<^verbatim>\<open>a || b\<close> with \<open>b\<close> defined.\<close>

definition js_or :: "jsval \<Rightarrow> json \<Rightarrow> json" where
  "js_or a b = (case when_truthy a of None \<Rightarrow> b | Some v \<Rightarrow> v)"

text \<open>\<^verbatim>\<open>a ?? b\<close>: only \<^verbatim>\<open>undefined\<close> and \<^verbatim>\<open>null\<close> give way to \<open>b\<close>.\<close>

definition nullish :: "jsval \<Rightarrow> bool" where
  "nullish a = (a = None \<or> a = Some JNull)"

definition js_coalesce :: "jsval \<Rightarrow> json \<Rightarrow> json" where
  "js_coalesce a b = (case a of None \<Rightarrow> b | Some v \<Rightarrow> if v = JNull then b else v)"

text \<open>
  ToNumber, for the values whose conversion needs no parsing of text. \<open>None\<close> stands for
  a conversion the model does not compute (strings, arrays and objects).
\<close>

fun to_number :: "json \<Rightarrow> rat option" where
  "to_number (JNum n) = Some n"
| "to_number (JBool b) = Some (if b then 1 else 0)"
| "to_number JNull = Some 0"
| "to_number _ = None"

subsection \<open>Numbers\<close>

text \<open>
  A number of the script is a double: a finite one is the rational it stands for, and
  there are the two infinities and NaN. The two zeros are taken as one: the script divides
  only by 1000 and by values it has found truthy, and the sign of a zero never shows in
  what it displays.
\<close>

datatype number =
    Fin rat
  | PosInf
  | NegInf
  | NaN

text \<open>The number of binary digits of a natural number.\<close>

fun bit_length :: "nat \<Rightarrow> nat" where
  "bit_length n = (if n = 0 then 0 else Suc (bit_length (n div 2)))"

declare bit_length.simps [simp del]

text \<open>
  For \<open>y > 0\<close>, the exponent \<open>e\<close> with \<open>2\<^sup>e \<le> y < 2\<^sup>e\<^sup>+\<^sup>1\<close>, and the powers of two with
  an integer exponent.
\<close>

definition exponent :: "rat \<Rightarrow> int" where
  "exponent y =
     (if 1 \<le> y then int (bit_length (nat \<lfloor>y\<rfloor>)) - 1
      else - int (bit_length (nat (\<lceil>1 / y\<rceil> - 1))))"

definition pow2 :: "int \<Rightarrow> rat" where
  "pow2 e = (if 0 \<le> e then 2 ^ nat e else 1 / 2 ^ nat (- e))"

text \<open>The nearest integer, a half going to the even neighbour.\<close>

definition round_even :: "rat \<Rightarrow> int" where
  "round_even z =
     (let f = \<lfloor>z\<rfloor>; r = z - of_int f
      in if r < 1 / 2 then f
         else if 1 / 2 < r then f + 1
         else if even f then f else f + 1)"

text \<open>
  Rounding an exact result to a double (round to nearest, ties to even): 53 significant
  bits, the spacing never below \<open>2\<^sup>-\<^sup>1\<^sup>0\<^sup>7\<^sup>4\<close> (subnormal numbers), and infinity when the
  rounded value reaches \<open>2\<^sup>1\<^sup>0\<^sup>2\<^sup>4\<close>.
\<close>

definition fl_pos :: "rat \<Rightarrow> number" where
  "fl_pos y =
     (let e = max (exponent y - 52) (- 1074);
          v = of_int (round_even (y / pow2 e)) * pow2 e
      in if pow2 1024 \<le> v then PosInf else Fin v)"

fun nneg :: "number \<Rightarrow> number" where
  "nneg (Fin x) = Fin (- x)"
| "nneg PosInf = NegInf"
| "nneg NegInf = PosInf"
| "nneg NaN = NaN"

definition fl :: "rat \<Rightarrow> number" where
  "fl x = (if x = 0 then Fin 0 else if 0 < x then fl_pos x else nneg (fl_pos (- x)))"

text \<open>An infinity times a finite number \<open>x\<close>, by the sign of \<open>x\<close>.\<close>

definition inf_times :: "rat \<Rightarrow> number" where
  "inf_times x = (if x = 0 then NaN else if 0 < x then PosInf else NegInf)"

text \<open>The operators \<^verbatim>\<open>-\<close>, \<^verbatim>\<open>*\<close> and \<^verbatim>\<open>/\<close> on numbers.\<close>

fun nsub :: "number \<Rightarrow> number \<Rightarrow> number" where
  "nsub NaN _ = NaN"
| "nsub _ NaN = NaN"
| "nsub (Fin x) (Fin y) = fl (x - y)"
| "nsub (Fin x) PosInf = NegInf"
| "nsub (Fin x) NegInf = PosInf"
| "nsub PosInf PosInf = NaN"
| "nsub PosInf _ = PosInf"
| "nsub NegInf NegInf = NaN"
| "nsub NegInf _ = NegInf"

fun nmul :: "number \<Rightarrow> number \<Rightarrow> number" where
  "nmul NaN _ = NaN"
| "nmul _ NaN = NaN"
| "nmul (Fin x) (Fin y) = fl (x * y)"
| "nmul (Fin x) PosInf = inf_times x"
| "nmul (Fin x) NegInf = nneg (inf_times x)"
| "nmul PosInf (Fin y) = inf_times y"
| "nmul NegInf (Fin y) = nneg (inf_times y)"
| "nmul PosInf PosInf = PosInf"
| "nmul PosInf NegInf = NegInf"
| "nmul NegInf PosInf = NegInf"
| "nmul NegInf NegInf = PosInf"

fun ndiv :: "number \<Rightarrow> number \<Rightarrow> number" where
  "ndiv NaN _ = NaN"
| "ndiv _ NaN = NaN"
| "ndiv (Fin x) (Fin y) = (if y = 0 then inf_times x else fl (x / y))"
| "ndiv (Fin x) _ = Fin 0"
| "ndiv PosInf (Fin y) = (if 0 \<le> y then PosInf else NegInf)"
| "ndiv NegInf (Fin y) = (if 0 \<le> y then NegInf else PosInf)"
| "ndiv _ _ = NaN"

text \<open>\<^verbatim>\<open>Math.round\<close>: the nearest integer, halves going up.\<close>

definition js_round :: "rat \<Rightarrow> rat" where
  "js_round x = of_int \<lfloor>x + 1 / 2\<rfloor>"

fun nround :: "number \<Rightarrow> number" where
  "nround (Fin x) = Fin (js_round x)"
| "nround n = n"

text \<open>\<^verbatim>\<open>Math.max\<close> and \<^verbatim>\<open>Math.min\<close> of two numbers.\<close>

fun nmax :: "number \<Rightarrow> number \<Rightarrow> number" where
  "nmax NaN _ = NaN"
| "nmax _ NaN = NaN"
| "nmax PosInf _ = PosInf"
| "nmax _ PosInf = PosInf"
| "nmax NegInf n = n"
| "nmax n NegInf = n"
| "nmax (Fin x) (Fin y) = Fin (max x y)"

fun nmin :: "number \<Rightarrow> number \<Rightarrow> number" where
  "nmin NaN _ = NaN"
| "nmin _ NaN = NaN"
| "nmin NegInf _ = NegInf"
| "nmin _ NegInf = NegInf"
| "nmin PosInf n = n"
| "nmin n PosInf = n"
| "nmin (Fin x) (Fin y) = Fin (min x y)"

text \<open>ToBoolean of a number: zero and NaN are falsy.\<close>

fun ntruthy :: "number \<Rightarrow> bool" where
  "ntruthy (Fin x) = (x \<noteq> 0)"
| "ntruthy NaN = False"
| "ntruthy _ = True"

text \<open>A number that is not below zero, and one that is not above.\<close>

fun nonneg_num :: "number \<Rightarrow> bool" where
  "nonneg_num (Fin x) = (0 \<le> x)"
| "nonneg_num PosInf = True"
| "nonneg_num _ = False"

fun nonpos_num :: "number \<Rightarrow> bool" where
  "nonpos_num (Fin x) = (x \<le> 0)"
| "nonpos_num NegInf = True"
| "nonpos_num _ = False"

subsection \<open>The streaming text decoder\<close>

text \<open>
  \<^verbatim>\<open>new TextDecoder("utf-8")\<close> and \<^verbatim>\<open>decoder.decode(value, { stream: true })\<close>. The
  decoder keeps the bytes of an unfinished character in its state between two calls; the
  script never makes the final call without \<^verbatim>\<open>stream\<close>, so nothing is flushed.
\<close>

record utf8_decoder =
  code_point :: nat
  bytes_seen :: nat
  bytes_needed :: nat
  lower_boundary :: byte
  upper_boundary :: byte
  bom_seen :: bool

definition new_decoder :: utf8_decoder where
  "new_decoder = \<lparr>code_point = 0, bytes_seen = 0, bytes_needed = 0,
     lower_boundary = 0x80, upper_boundary = 0xBF, bom_seen = False\<rparr>"

text \<open>A byte read when no character is under way.\<close>

definition utf8_lead :: "utf8_decoder \<Rightarrow> byte \<Rightarrow> utf8_decoder \<times> nat list" where
  "utf8_lead d b =
     (if b \<le> 0x7F then (d, [unat b])
      else if 0xC2 \<le> b \<and> b \<le> 0xDF then
        (d\<lparr>bytes_needed := 1, code_point := unat (b AND 0x1F)\<rparr>, [])
      else if 0xE0 \<le> b \<and> b \<le> 0xEF then
        (d\<lparr>lower_boundary := (if b = 0xE0 then 0xA0 else lower_boundary d),
           upper_boundary := (if b = 0xED then 0x9F else upper_boundary d),
           bytes_needed := 2, code_point := unat (b AND 0xF)\<rparr>, [])
      else if 0xF0 \<le> b \<and> b \<le> 0xF4 then
        (d\<lparr>lower_boundary := (if b = 0xF0 then 0x90 else lower_boundary d),
           upper_boundary := (if b = 0xF4 then 0x8F else upper_boundary d),
           bytes_needed := 3, code_point := unat (b AND 0x7)\<rparr>, [])
      else (d, [0xFFFD]))"

text \<open>
  One byte through the decoder: the code points it releases. A byte that cannot continue
  the character under way ends it with U+FFFD and is read again as a first byte.
\<close>

definition utf8_handler :: "utf8_decoder \<Rightarrow> byte \<Rightarrow> utf8_decoder \<times> nat list" where
  "utf8_handler d b =
     (if bytes_needed d = 0 then utf8_lead d b
      else if \<not> (lower_boundary d \<le> b \<and> b \<le> upper_boundary d) then
        (case utf8_lead (d\<lparr>code_point := 0, bytes_needed := 0, bytes_seen := 0,
                             lower_boundary := 0x80, upper_boundary := 0xBF\<rparr>) b of
           (d', out) \<Rightarrow> (d', 0xFFFD # out))
      else
        (let d1 = d\<lparr>lower_boundary := 0x80, upper_boundary := 0xBF,
                     code_point := push_bit 6 (code_point d) OR unat (b AND 0x3F),
                     bytes_seen := bytes_seen d + 1\<rparr>
         in if bytes_seen d1 \<noteq> bytes_needed d1 then (d1, [])
            else (d1\<lparr>code_point := 0, bytes_needed := 0, bytes_seen := 0\<rparr>,
                  [code_point d1])))"

text \<open>A code point as the code units of a JavaScript string.\<close>

definition utf16 :: "nat \<Rightarrow> jsstring" where
  "utf16 cp =
     (if cp < 0x10000 then [of_nat cp]
      else [0xD800 + of_nat (drop_bit 10 (cp - 0x10000)),
            0xDC00 + of_nat ((cp - 0x10000) AND 0x3FF)])"

text \<open>The released code points become text; a byte order mark in first place is dropped.\<close>

fun serialize :: "bool \<Rightarrow> nat list \<Rightarrow> bool \<times> jsstring" where
  "serialize seen [] = (seen, [])"
| "serialize seen (cp # cps) =
     (if \<not> seen \<and> cp = 0xFEFF then serialize True cps
      else (case serialize True cps of (seen', s) \<Rightarrow> (seen', utf16 cp @ s)))"

definition decode_byte :: "utf8_decoder \<Rightarrow> byte \<Rightarrow> utf8_decoder \<times> jsstring" where
  "decode_byte d b =
     (case utf8_handler d b of
        (d', cps) \<Rightarrow>
          (case serialize (bom_seen d') cps of
             (seen', s) \<Rightarrow> (d'\<lparr>bom_seen := seen'\<rparr>, s)))"

fun decode_stream :: "utf8_decoder \<Rightarrow> byte list \<Rightarrow> utf8_decoder \<times> jsstring" where
  "decode_stream d [] = (d, [])"
| "decode_stream d (b # bs) =
     (case decode_byte d b of
        (d1, s1) \<Rightarrow> (case decode_stream d1 bs of (d2, s2) \<Rightarrow> (d2, s1 @ s2)))"

subsection \<open>Lines\<close>

text \<open>\<^verbatim>\<open>s.split("\n")\<close>: the segments between the newlines, at least one.\<close>

fun split_nl :: "jsstring \<Rightarrow> jsstring list" where
  "split_nl [] = [[]]"
| "split_nl (c # cs) =
     (if c = 0x0A then [] # split_nl cs
      else (case split_nl cs of [] \<Rightarrow> [[c]] | l # ls \<Rightarrow> (c # l) # ls))"

text \<open>\<^verbatim>\<open>lines.pop() || ""\<close> and what \<^verbatim>\<open>pop\<close> leaves in the array.\<close>

definition pop_or_empty :: "jsstring list \<Rightarrow> jsstring" where
  "pop_or_empty ls = (if ls = [] then [] else last ls)"

text \<open>The white space and line terminators that \<^verbatim>\<open>trim\<close> removes.\<close>

definition js_white :: "16 word \<Rightarrow> bool" where
  "js_white c \<longleftrightarrow>
     c = 0x09 \<or> c = 0x0A \<or> c = 0x0B \<or> c = 0x0C \<or> c = 0x0D \<or> c = 0x20 \<or> c = 0xA0 \<or>
     c = 0x1680 \<or> (0x2000 \<le> c \<and> c \<le> 0x200A) \<or> c = 0x2028 \<or> c = 0x2029 \<or>
     c = 0x202F \<or> c = 0x205F \<or> c = 0x3000 \<or> c = 0xFEFF"

definition js_trim :: "jsstring \<Rightarrow> jsstring" where
  "js_trim s = rev (dropWhile js_white (rev (dropWhile js_white s)))"

subsection \<open>The page\<close>

text \<open>
  The texts of the progress line, before the localisation table turns their fixed parts
  into words: the literal of \<^verbatim>\<open>UI_STARTING\<close>, of \<^verbatim>\<open>UI_PREPARING\<close> with \<^verbatim>\<open>(0/total)\<close>
  when \<^verbatim>\<open>total\<close> is truthy, of \<^verbatim>\<open>UI_PROCESSING_REQ\<close> with the requirement, the
  scenario when truthy, \<^verbatim>\<open>(done/total)\<close> and the estimate, and of \<^verbatim>\<open>UI_COMPLETED\<close>.
\<close>

datatype eta =
    EtaNull
  | EtaSec number
  | EtaNotComputed

datatype ptext =
    DontClose
  | Starting
  | Preparing "json option"
  | Processing json "json option" json json eta
  | Completed

text \<open>
  The argument of \<^verbatim>\<open>showOk\<close> on completion:
  \<^verbatim>\<open>evt.code ? t(evt.code, evt.message) : (evt.message || t("OK_GENERATED", ...))\<close>.
\<close>

datatype notice =
    Localised json jsval
  | Plain json
  | Generated

text \<open>An entry of the limit list: the requirement and, when it is a number, the count.\<close>

type_synonym limit_item = "json \<times> rat option"

record page =
  bar_width :: "number option"
  progress_text :: ptext
  ready_filename :: json
  m_input :: json
  m_output :: json
  m_time :: json
  m_req :: json
  m_tc :: json
  m_not :: json
  m_area :: json
  m_limit :: json
  limit_detail_hidden :: bool
  limit_items :: "limit_item list"
  ready_card_shown :: bool
  toasts :: "notice list"

text \<open>
  \<^verbatim>\<open>setProgress(pct, text)\<close>. The percentage is \<open>None\<close> when it was not computed (see
  \<open>to_number\<close>); every text the script passes is a non-empty string.
\<close>

definition setProgress :: "number option \<Rightarrow> ptext \<Rightarrow> page \<Rightarrow> page" where
  "setProgress pct text p =
     (let clamped = map_option (\<lambda>x. nmax (Fin 0) (nmin (Fin 100) x)) pct
      in p\<lparr>bar_width := clamped, progress_text := text\<rparr>)"

definition showOk :: "notice \<Rightarrow> page \<Rightarrow> page" where
  "showOk message p = p\<lparr>toasts := toasts p @ [message]\<rparr>"

text \<open>\<^verbatim>\<open>a?.k\<close>.\<close>

definition opt_chain :: "jsval \<Rightarrow> jsstring \<Rightarrow> jsval" where
  "opt_chain a k = (case a of None \<Rightarrow> None | Some v \<Rightarrow> if v = JNull then None else field v k)"

text \<open>
  The loop over the limit detail in \<^verbatim>\<open>applyDoneUI\<close>. Reading \<^verbatim>\<open>item.requirement\<close> of a
  \<^verbatim>\<open>null\<close> item throws: the flag is \<open>False\<close> then, and the entries appended before stay.
\<close>

definition limit_entry :: "json \<Rightarrow> limit_item" where
  "limit_entry item =
     (js_coalesce (field item (js ''requirement'')) (JStr (js ''?'')),
      (case field item (js ''omitted_tcs'') of Some (JNum n) \<Rightarrow> Some n | _ \<Rightarrow> None))"

fun append_items :: "json list \<Rightarrow> limit_item list \<Rightarrow> limit_item list \<times> bool" where
  "append_items [] acc = (acc, True)"
| "append_items (item # rest) acc =
     (if item = JNull then (acc, False)
      else append_items rest (acc @ [limit_entry item]))"

text \<open>
  \<^verbatim>\<open>data.stats || {}\<close> and the constant \<^verbatim>\<open>list\<close> of \<^verbatim>\<open>applyDoneUI\<close>: the limit detail when
  it is an array, the empty array otherwise.
\<close>

definition stats_of :: "json \<Rightarrow> json" where
  "stats_of data = js_or (field data (js ''stats'')) (JObj [])"

definition detail_of :: "json \<Rightarrow> json list" where
  "detail_of stats =
     (case field stats (js ''requirements_limit_reached_detail'') of
        Some (JArr xs) \<Rightarrow> xs | _ \<Rightarrow> [])"

text \<open>\<^verbatim>\<open>applyDoneUI(data)\<close> with \<open>data\<close> not \<^verbatim>\<open>null\<close>; the flag is \<open>False\<close> when it throws.\<close>

definition applyDoneUI :: "json \<Rightarrow> page \<Rightarrow> page \<times> bool" where
  "applyDoneUI data p =
     (let stats = stats_of data;
          p1 = p\<lparr>ready_filename := js_or (field data (js ''filename'')) (JStr (js ''TC.csv'')),
                 m_input := js_coalesce (opt_chain (field data (js ''usage'')) (js ''input_tokens'')) (JNum 0),
                 m_output := js_coalesce (opt_chain (field data (js ''usage'')) (js ''output_tokens'')) (JNum 0),
                 m_time := js_coalesce (field data (js ''elapsed'')) (JNum 0),
                 m_req := js_coalesce (field stats (js ''requirements_total'')) (JNum 0),
                 m_tc := js_coalesce (field stats (js ''test_cases_total'')) (JNum 0),
                 m_not := js_coalesce (field stats (js ''requirements_not_testable'')) (JNum 0),
                 m_area := js_coalesce (field stats (js ''area_path''))
                             (js_coalesce (field stats (js ''project_id'')) (JStr (js ''-''))),
                 m_limit := js_coalesce (field stats (js ''requirements_limit_reached_total'')) (JNum 0)\<rparr>;
          list = detail_of stats;
          p2 = p1\<lparr>limit_items := []\<rparr>
      in if list \<noteq> [] then
           (case append_items list [] of
              (items, True) \<Rightarrow>
                (p2\<lparr>limit_items := items, limit_detail_hidden := False,
                    ready_card_shown := True\<rparr>, True)
            | (items, False) \<Rightarrow> (p2\<lparr>limit_items := items\<rparr>, False))
         else (p2\<lparr>limit_detail_hidden := True, ready_card_shown := True\<rparr>, True))"

subsection \<open>The progress numbers\<close>

text \<open>
  Lines 370 to 373, on the tracked values \<^verbatim>\<open>done\<close> and \<^verbatim>\<open>total\<close> and the seconds elapsed:
  \<^verbatim>\<open>pct = total ? Math.round((done / total) * 100) : 0\<close>,
  \<^verbatim>\<open>avg = done ? (elapsedSec / done) : 0\<close>,
  \<^verbatim>\<open>etaSec = (avg && total) ? Math.max(0, Math.round(avg * (total - done))) : null\<close>.
\<close>

definition percent :: "json \<Rightarrow> json \<Rightarrow> number option" where
  "percent dn tot =
     (if truthy tot then
        (case (to_number dn, to_number tot) of
           (Some d, Some t) \<Rightarrow> Some (nround (nmul (ndiv (Fin d) (Fin t)) (Fin 100)))
         | _ \<Rightarrow> None)
      else Some (Fin 0))"

definition average :: "json \<Rightarrow> number \<Rightarrow> number option" where
  "average dn elapsedSec =
     (if truthy dn then map_option (\<lambda>d. ndiv elapsedSec (Fin d)) (to_number dn)
      else Some (Fin 0))"

definition etaSec :: "json \<Rightarrow> json \<Rightarrow> number \<Rightarrow> eta" where
  "etaSec dn tot elapsedSec =
     (case average dn elapsedSec of
        None \<Rightarrow> EtaNotComputed
      | Some avg \<Rightarrow>
          if ntruthy avg \<and> truthy tot then
            (case (to_number tot, to_number dn) of
               (Some t, Some d) \<Rightarrow>
                 EtaSec (nmax (Fin 0) (nround (nmul avg (nsub (Fin t) (Fin d)))))
             | _ \<Rightarrow> EtaNotComputed)
          else EtaNull)"

subsection \<open>The consumer\<close>

text \<open>
  How \<^verbatim>\<open>generateViaStream\<close> can end: by \<^verbatim>\<open>return\<close>, or by throwing. The Error thrown on an
  \<^verbatim>\<open>error\<close> event has the text \<^verbatim>\<open>t(evt.code, evt.message || t("ERR_ENGINE", ...))\<close>: the
  model keeps \<^verbatim>\<open>evt.code\<close> and \<^verbatim>\<open>evt.message\<close> when truthy. \<open>StreamEnded\<close> is the Error
  with the text of \<^verbatim>\<open>UI_STREAM_ENDED\<close> after the loop, \<open>TypeError\<close> the one the engine
  throws when a property of \<^verbatim>\<open>null\<close> is read.
\<close>

datatype error =
    StreamEnded
  | ServerReported jsval "json option"
  | TypeError

datatype outcome =
    Returned
  | Threw error

datatype control =
    Continue
  | Stop outcome

text \<open>
  The variables of the run: \<^verbatim>\<open>total\<close> and \<^verbatim>\<open>done\<close> of \<^verbatim>\<open>generateViaStream\<close>, the
  script's \<^verbatim>\<open>lastCsvB64\<close> (\<open>None\<close> is \<^verbatim>\<open>null\<close>) and \<^verbatim>\<open>lastFilename\<close>, and the page.
  Two fields are not variables of the script: \<open>clock_reads\<close> counts the readings of
  \<^verbatim>\<open>performance.now()\<close> made so far, and \<open>history\<close> lists the values \<^verbatim>\<open>JSON.parse\<close>
  has returned, in the order of their lines.
\<close>

record run =
  total :: json
  done_count :: json
  lastCsvB64 :: "json option"
  lastFilename :: json
  ui :: page
  clock_reads :: nat
  history :: "json list"

text \<open>The body of the \<^verbatim>\<open>for\<close> loop after \<^verbatim>\<open>JSON.parse\<close> (lines 357 to 403).\<close>

definition on_meta :: "run \<Rightarrow> json \<Rightarrow> control \<times> run" where
  "on_meta st evt =
     (let tot = js_or (field evt (js ''total_blocks'')) (JNum 0)
      in (Continue,
          st\<lparr>total := tot,
             ui := setProgress (Some (Fin 3)) (Preparing (when_truthy (Some tot))) (ui st)\<rparr>))"

text \<open>\<^verbatim>\<open>(performance.now() - startedAt) / 1000\<close> at the next reading of the clock.\<close>

definition elapsed :: "(nat \<Rightarrow> rat) \<Rightarrow> run \<Rightarrow> number" where
  "elapsed now st = ndiv (nsub (Fin (now (clock_reads st))) (Fin (now 0))) (Fin 1000)"

definition on_progress :: "(nat \<Rightarrow> rat) \<Rightarrow> run \<Rightarrow> json \<Rightarrow> control \<times> run" where
  "on_progress now st evt =
     (let dn = js_or (field evt (js ''done'')) (JNum 0);
          tot = js_or (field evt (js ''total'')) (total st);
          pct = percent dn tot;
          elapsedSec = elapsed now st;
          req = js_coalesce (field evt (js ''req'')) (JStr (js ''?''));
          scenario = when_truthy (field evt (js ''scenario''))
      in (Continue,
          st\<lparr>done_count := dn, total := tot, clock_reads := clock_reads st + 1,
             ui := setProgress pct
                     (Processing req scenario dn tot (etaSec dn tot elapsedSec)) (ui st)\<rparr>))"

definition done_notice :: "json \<Rightarrow> notice" where
  "done_notice evt =
     (case when_truthy (field evt (js ''code'')) of
        Some c \<Rightarrow> Localised c (field evt (js ''message''))
      | None \<Rightarrow>
          (case when_truthy (field evt (js ''message'')) of
             Some m \<Rightarrow> Plain m
           | None \<Rightarrow> Generated))"

definition on_done :: "run \<Rightarrow> json \<Rightarrow> control \<times> run" where
  "on_done st evt =
     (let p1 = showOk (done_notice evt) (setProgress (Some (Fin 100)) Completed (ui st))
      in case applyDoneUI evt p1 of
           (p2, False) \<Rightarrow> (Stop (Threw TypeError), st\<lparr>ui := p2\<rparr>)
         | (p2, True) \<Rightarrow>
             (Stop Returned,
              st\<lparr>ui := p2,
                 lastCsvB64 := when_truthy (field evt (js ''csv_b64'')),
                 lastFilename := js_or (field evt (js ''filename'')) (JStr (js ''TC.csv''))\<rparr>))"

definition on_error :: "run \<Rightarrow> json \<Rightarrow> control \<times> run" where
  "on_error st evt =
     (Stop (Threw (ServerReported (field evt (js ''code''))
                     (when_truthy (field evt (js ''message''))))),
      st)"

definition handle_event :: "(nat \<Rightarrow> rat) \<Rightarrow> run \<Rightarrow> json \<Rightarrow> control \<times> run" where
  "handle_event now st evt =
     (if evt = JNull then (Stop (Threw TypeError), st)
      else if field evt (js ''type'') = Some (JStr (js ''meta'')) then on_meta st evt
      else if field evt (js ''type'') = Some (JStr (js ''progress'')) then on_progress now st evt
      else if field evt (js ''type'') = Some (JStr (js ''done'')) then on_done st evt
      else if field evt (js ''type'') = Some (JStr (js ''error'')) then on_error st evt
      else (Continue, st))"

text \<open>One turn of the \<^verbatim>\<open>for\<close> loop (lines 348 to 404).\<close>

definition process_line ::
  "(jsstring \<Rightarrow> json option) \<Rightarrow> (nat \<Rightarrow> rat) \<Rightarrow> run \<Rightarrow> jsstring \<Rightarrow> control \<times> run" where
  "process_line parse now st line =
     (if js_trim line = [] then (Continue, st)
      else (case parse line of
              None \<Rightarrow> (Continue, st)
            | Some evt \<Rightarrow> handle_event now (st\<lparr>history := history st @ [evt]\<rparr>) evt))"

fun process_lines ::
  "(jsstring \<Rightarrow> json option) \<Rightarrow> (nat \<Rightarrow> rat) \<Rightarrow> run \<Rightarrow> jsstring list \<Rightarrow> control \<times> run" where
  "process_lines parse now st [] = (Continue, st)"
| "process_lines parse now st (line # rest) =
     (case process_line parse now st line of
        (Stop oc, st') \<Rightarrow> (Stop oc, st')
      | (Continue, st') \<Rightarrow> process_lines parse now st' rest)"

text \<open>
  The \<^verbatim>\<open>while (true)\<close> loop (lines 339 to 407) over the chunks the reader still has to
  deliver; when they are used up, \<^verbatim>\<open>reader.read()\<close> reports the end and the loop is left.
\<close>

fun read_loop ::
  "(jsstring \<Rightarrow> json option) \<Rightarrow> (nat \<Rightarrow> rat) \<Rightarrow> utf8_decoder \<Rightarrow> jsstring \<Rightarrow> run \<Rightarrow>
   byte list list \<Rightarrow> outcome \<times> run" where
  "read_loop parse now decoder buffer st [] = (Threw StreamEnded, st)"
| "read_loop parse now decoder buffer st (chunk # rest) =
     (case decode_stream decoder chunk of
        (decoder', text) \<Rightarrow>
          (let lines = split_nl (buffer @ text);
               buffer' = pop_or_empty lines
           in case process_lines parse now st (butlast lines) of
                (Stop oc, st') \<Rightarrow> (oc, st')
              | (Continue, st') \<Rightarrow> read_loop parse now decoder' buffer' st' rest))"

text \<open>
  \<^verbatim>\<open>generateViaStream\<close> once the response is in and has a body (lines 329 to 407): the
  variables are set, the first reading of the clock is taken, \<^verbatim>\<open>setProgress(2, ...)\<close> is
  called and the loop starts.
\<close>

definition start_run :: "run \<Rightarrow> run" where
  "start_run st =
     st\<lparr>total := JNum 0, done_count := JNum 0, clock_reads := 1, history := [],
        ui := setProgress (Some (Fin 2)) Starting (ui st)\<rparr>"

definition generateViaStream ::
  "(jsstring \<Rightarrow> json option) \<Rightarrow> (nat \<Rightarrow> rat) \<Rightarrow> run \<Rightarrow> byte list list \<Rightarrow> outcome \<times> run" where
  "generateViaStream parse now st chunks =
     read_loop parse now new_decoder [] (start_run st) chunks"

subsection \<open>The download\<close>

text \<open>
  What \<^verbatim>\<open>fetch(downloadUrl)\<close> gives: a rejected promise, or a response with its \<^verbatim>\<open>ok\<close>
  flag, the bytes of its body and its \<^verbatim>\<open>Content-Disposition\<close> header (\<open>None\<close> when the
  header is missing).
\<close>

datatype response =
    Rejected
  | Response bool "byte list" "jsstring option"

text \<open>What the handler shows at the end: the toast of \<^verbatim>\<open>showOk\<close> or the modal of \<^verbatim>\<open>showError\<close>.\<close>

datatype download_notice =
    DownloadStarted
  | UrlMissing
  | DownloadFailed
  | ExceptionMessage

text \<open>
  The effects of one click: the file handed to the browser by \<^verbatim>\<open>triggerDownload\<close> (the
  value of \<^verbatim>\<open>a.download\<close> and the bytes of the blob), the number of calls of \<^verbatim>\<open>fetch\<close>
  and the notice.
\<close>

record download_effects =
  saved :: "(json \<times> byte list) option"
  requests :: nat
  shown :: download_notice

text \<open>
  \<^verbatim>\<open>cd.match(/filename="([^"]+)"/i)\<close>, first group. Under the flag \<^verbatim>\<open>i\<close> a letter of the
  pattern matches itself and its capital.
\<close>

definition ci_match :: "16 word \<Rightarrow> 16 word \<Rightarrow> bool" where
  "ci_match c p \<longleftrightarrow> c = p \<or> (0x61 \<le> p \<and> p \<le> 0x7A \<and> c = p - 32)"

definition match_here :: "jsstring \<Rightarrow> jsstring option" where
  "match_here s =
     (let pat = js ''filename='' @ [0x22]; n = length pat
      in if n \<le> length s \<and> list_all2 ci_match (take n s) pat then
           (let v = takeWhile (\<lambda>c. c \<noteq> 0x22) (drop n s);
                r = dropWhile (\<lambda>c. c \<noteq> 0x22) (drop n s)
            in if v \<noteq> [] \<and> r \<noteq> [] then Some v else None)
         else None)"

fun match_filename :: "jsstring \<Rightarrow> jsstring option" where
  "match_filename [] = None"
| "match_filename (c # cs) =
     (case match_here (c # cs) of Some v \<Rightarrow> Some v | None \<Rightarrow> match_filename cs)"

text \<open>\<^verbatim>\<open>base64ToUint8Array\<close>: each code unit of the binary string stored into a byte.\<close>

definition base64ToUint8Array :: "(json \<Rightarrow> jsstring option) \<Rightarrow> json \<Rightarrow> byte list option" where
  "base64ToUint8Array atob b64 = map_option (map ucast) (atob b64)"

text \<open>\<^verbatim>\<open>triggerDownload(blob, filename)\<close>.\<close>

definition triggerDownload :: "byte list \<Rightarrow> json \<Rightarrow> json \<times> byte list" where
  "triggerDownload blob filename = (js_or (Some filename) (JStr (js ''TC.csv'')), blob)"

text \<open>\<^verbatim>\<open>downloadCsvNoReload\<close>, given the answer of its one \<^verbatim>\<open>fetch\<close>.\<close>

definition downloadCsvNoReload :: "response \<Rightarrow> download_effects" where
  "downloadCsvNoReload resp =
     (case resp of
        Rejected \<Rightarrow> \<lparr>saved = None, requests = 1, shown = ExceptionMessage\<rparr>
      | Response ok blob header \<Rightarrow>
          if \<not> ok then \<lparr>saved = None, requests = 1, shown = DownloadFailed\<rparr>
          else
            (let cd = (case header of None \<Rightarrow> [] | Some h \<Rightarrow> h);
                 filename = (case match_filename cd of
                               Some v \<Rightarrow> JStr v | None \<Rightarrow> JStr (js ''TC.csv''))
             in \<lparr>saved = Some (triggerDownload blob filename), requests = 1,
                  shown = DownloadStarted\<rparr>))"

text \<open>
  The click handler of \<^verbatim>\<open>downloadBtn\<close> (lines 526 to 554). \<open>downloadUrl\<close> is
  \<^verbatim>\<open>form.dataset.downloadUrl\<close>, \<open>None\<close> when the attribute is missing. The second
  definition is the handler, the first its part after the comment \<^verbatim>\<open>Fallback\<close>.
\<close>

definition download_fallback :: "jsstring option \<Rightarrow> response \<Rightarrow> download_effects" where
  "download_fallback downloadUrl resp =
     (if falsy (map_option JStr downloadUrl) then
        \<lparr>saved = None, requests = 0, shown = UrlMissing\<rparr>
      else downloadCsvNoReload resp)"

definition download ::
  "(json \<Rightarrow> jsstring option) \<Rightarrow> jsstring option \<Rightarrow> response \<Rightarrow> run \<Rightarrow> download_effects" where
  "download atob downloadUrl resp st =
     (case lastCsvB64 st of
        None \<Rightarrow> download_fallback downloadUrl resp
      | Some b64 \<Rightarrow>
          if truthy b64 then
            (case base64ToUint8Array atob b64 of
               None \<Rightarrow> \<lparr>saved = None, requests = 0, shown = ExceptionMessage\<rparr>
             | Some bytes \<Rightarrow>
                 \<lparr>saved = Some (triggerDownload bytes (lastFilename st)), requests = 0,
                  shown = DownloadStarted\<rparr>)
          else download_fallback downloadUrl resp)"

subsection \<open>The state before a run\<close>

text \<open>\<^verbatim>\<open>resetMetrics\<close> and \<^verbatim>\<open>resetUIForNewRun\<close> (lines 173 to 194).\<close>

definition resetMetrics :: "page \<Rightarrow> page" where
  "resetMetrics p =
     p\<lparr>m_input := JStr (js ''0''), m_output := JStr (js ''0''), m_time := JStr (js ''0''),
       m_req := JStr (js ''0''), m_tc := JStr (js ''0''), m_not := JStr (js ''0''),
       m_area := JStr (js ''-''), m_limit := JStr (js ''0''),
       limit_detail_hidden := True, limit_items := []\<rparr>"

definition resetUIForNewRun :: "run \<Rightarrow> run" where
  "resetUIForNewRun st =
     st\<lparr>lastCsvB64 := None, lastFilename := JStr (js ''TC.csv''),
        ui := resetMetrics ((ui st)\<lparr>ready_card_shown := False\<rparr>)\<rparr>"

text \<open>
  The state when the page has loaded (lines 45 to 48 and 558 to 560); what the template
  puts into the progress line and the file name is taken empty. Then the state in which
  the submit handler calls \<^verbatim>\<open>generateViaStream\<close> (lines 492 to 494).
\<close>

definition loaded :: run where
  "loaded =
     \<lparr>total = JNum 0, done_count = JNum 0, lastCsvB64 = None,
      lastFilename = JStr (js ''TC.csv''),
      ui = resetMetrics
             \<lparr>bar_width = None, progress_text = DontClose, ready_filename = JStr [],
              m_input = JStr [], m_output = JStr [], m_time = JStr [], m_req = JStr [],
              m_tc = JStr [], m_not = JStr [], m_area = JStr [], m_limit = JStr [],
              limit_detail_hidden = True, limit_items = [], ready_card_shown = False,
              toasts = []\<rparr>,
      clock_reads = 0, history = []\<rparr>"

definition submitted :: run where
  "submitted =
     (resetUIForNewRun loaded)
       \<lparr>ui := setProgress (Some (Fin 0)) DontClose (ui (resetUIForNewRun loaded))\<rparr>"

subsection \<open>Sample inputs\<close>

text \<open>
  Lines of a stream, the values \<^verbatim>\<open>JSON.parse\<close> gives for them, a clock that advances by
  one second from reading to reading, and \<^verbatim>\<open>atob\<close> at one payload. \<open>sample_parse\<close> and
  \<open>sample_atob\<close> are the platform functions restricted to these inputs: \<open>cut_line\<close> is
  the only other line the examples give to the parser, and it is not JSON.
\<close>

definition bytes_of :: "string \<Rightarrow> byte list" where
  "bytes_of s = map of_char s"

definition meta_line :: string where
  \<open>meta_line = ''{"type":"meta","total_blocks":3}''\<close>

definition progress_line :: string where
  \<open>progress_line = ''{"type":"progress","done":1,"total":3,"req":"R1"}''\<close>

definition done_line :: string where
  \<open>done_line = ''{"type":"done","csv_b64":"YQ=="}''\<close>

definition error_line :: string where
  \<open>error_line = ''{"type":"error","code":"ERR_ENGINE"}''\<close>

definition cut_line :: string where
  \<open>cut_line = ''{"type":"prog''\<close>

definition null_line :: string where
  "null_line = ''null''"

definition null_detail_line :: string where
  \<open>null_detail_line =
     ''{"type":"done","csv_b64":"YQ==","stats":{"requirements_limit_reached_detail":[null]}}''\<close>

definition meta_event :: json where
  "meta_event = JObj [(js ''type'', JStr (js ''meta'')), (js ''total_blocks'', JNum 3)]"

definition progress_event :: json where
  "progress_event =
     JObj [(js ''type'', JStr (js ''progress'')), (js ''done'', JNum 1), (js ''total'', JNum 3),
           (js ''req'', JStr (js ''R1''))]"

definition done_event :: json where
  "done_event = JObj [(js ''type'', JStr (js ''done'')), (js ''csv_b64'', JStr (js ''YQ==''))]"

definition error_event :: json where
  "error_event = JObj [(js ''type'', JStr (js ''error'')), (js ''code'', JStr (js ''ERR_ENGINE''))]"

definition null_detail_event :: json where
  "null_detail_event =
     JObj [(js ''type'', JStr (js ''done'')), (js ''csv_b64'', JStr (js ''YQ=='')),
           (js ''stats'', JObj [(js ''requirements_limit_reached_detail'', JArr [JNull])])]"

definition sample_parse :: "jsstring \<Rightarrow> json option" where
  "sample_parse s =
     (if s = js meta_line then Some meta_event
      else if s = js progress_line then Some progress_event
      else if s = js done_line then Some done_event
      else if s = js error_line then Some error_event
      else if s = js null_line then Some JNull
      else if s = js null_detail_line then Some null_detail_event
      else None)"

definition seconds :: "nat \<Rightarrow> rat" where
  "seconds k = 1000 * of_nat k"

text \<open>A clock whose readings are 3.5 seconds apart.\<close>

definition lap :: "nat \<Rightarrow> rat" where
  "lap k = 3500 * of_nat k"

definition sample_atob :: "json \<Rightarrow> jsstring option" where
  "sample_atob v = (if v = JStr (js ''YQ=='') then Some [0x61] else None)"

text \<open>A \<^verbatim>\<open>Content-Disposition\<close> header with a quoted file name.\<close>

definition sample_header :: jsstring where
  "sample_header = js ''attachment; filename='' @ [0x22] @ js ''cases.csv'' @ [0x22]"

subsection \<open>Lines that do not end the run\<close>

text \<open>
  A line the loop goes past: a blank line, a line on which \<^verbatim>\<open>JSON.parse\<close> throws, or a
  line whose value is not \<^verbatim>\<open>null\<close> and whose \<^verbatim>\<open>type\<close> is neither \<^verbatim>\<open>"done"\<close> nor
  \<^verbatim>\<open>"error"\<close>.
\<close>

definition passes :: "(jsstring \<Rightarrow> json option) \<Rightarrow> jsstring \<Rightarrow> bool" where
  "passes parse line \<longleftrightarrow>
     js_trim line = [] \<or>
     (case parse line of
        None \<Rightarrow> True
      | Some evt \<Rightarrow> evt \<noteq> JNull \<and> field evt (js ''type'') \<noteq> Some (JStr (js ''done'')) \<and>
                    field evt (js ''type'') \<noteq> Some (JStr (js ''error'')))"

section \<open>Properties\<close>

text \<open>The equations that evaluate the model at a given input.\<close>

lemmas js_eval = js_def falsy_def when_truthy_def js_or_def js_coalesce_def nullish_def
  opt_chain_def Let_def

lemmas state_eval = setProgress_def showOk_def submitted_def loaded_def resetUIForNewRun_def
  resetMetrics_def start_run_def seconds_def

lemmas line_eval = meta_line_def progress_line_def done_line_def error_line_def cut_line_def
  null_line_def null_detail_line_def sample_parse_def js_trim_def js_white_def

lemmas event_eval = meta_event_def progress_event_def done_event_def error_event_def
  null_detail_event_def
  handle_event_def on_meta_def on_progress_def on_done_def on_error_def process_line_def


lemmas decoder_eval = decode_byte_def utf8_handler_def utf8_lead_def new_decoder_def utf16_def
  bytes_of_def

subsection \<open>Frames and chunks\<close>

lemma decode_stream_append:
  "decode_stream d (a @ b) =
     (case decode_stream d a of
        (d1, s1) \<Rightarrow> (case decode_stream d1 b of (d2, s2) \<Rightarrow> (d2, s1 @ s2)))"
  by (induction a arbitrary: d) (auto split: prod.splits)

lemma split_nl_nonempty [simp]: "split_nl s \<noteq> []"
  by (induction s) (auto split: list.splits)

text \<open>
  Splitting a text given in two parts: the complete lines of the first part, then the
  split of the rest of the first part followed by the second.
\<close>

lemma split_nl_append:
  "split_nl (a @ b) = butlast (split_nl a) @ split_nl (last (split_nl a) @ b)"
proof (induction a)
  case Nil
  then show ?case by simp
next
  case (Cons c cs)
  note IH = Cons.IH
  show ?case
  proof (cases "c = 0x0A")
    case True
    then show ?thesis using IH by simp
  next
    case False
    obtain l ls where s: "split_nl cs = l # ls"
      by (cases "split_nl cs") auto
    show ?thesis
    proof (cases ls)
      case Nil
      then show ?thesis using False s IH by (simp split: list.splits)
    next
      case (Cons l1 rest)
      then show ?thesis using False s IH by (simp split: list.splits)
    qed
  qed
qed

lemma pop_or_empty_last [simp]: "pop_or_empty (split_nl s) = last (split_nl s)"
  by (simp add: pop_or_empty_def)

lemma butlast_split_append:
  "butlast (split_nl (a @ b)) =
     butlast (split_nl a) @ butlast (split_nl (last (split_nl a) @ b))"
  by (subst split_nl_append) (simp add: butlast_append)

lemma last_split_append:
  "last (split_nl (a @ b)) = last (split_nl (last (split_nl a) @ b))"
  by (subst split_nl_append) simp

lemma process_lines_append:
  "process_lines parse now st (xs @ ys) =
     (case process_lines parse now st xs of
        (Stop oc, st') \<Rightarrow> (Stop oc, st')
      | (Continue, st') \<Rightarrow> process_lines parse now st' ys)"
  by (induction xs arbitrary: st) (auto split: prod.splits control.splits)

text \<open>Two chunks read one after the other do what their concatenation does.\<close>

lemma read_loop_merge:
  "read_loop parse now dec buf st (c1 # c2 # cs) =
   read_loop parse now dec buf st ((c1 @ c2) # cs)"
proof -
  obtain d1 t1 where d1: "decode_stream dec c1 = (d1, t1)"
    by (cases "decode_stream dec c1")
  obtain d2 t2 where d2: "decode_stream d1 c2 = (d2, t2)"
    by (cases "decode_stream d1 c2")
  have d12: "decode_stream dec (c1 @ c2) = (d2, t1 @ t2)"
    by (simp add: decode_stream_append d1 d2)
  have b: "butlast (split_nl (buf @ t1 @ t2)) =
      butlast (split_nl (buf @ t1)) @ butlast (split_nl (last (split_nl (buf @ t1)) @ t2))"
    using butlast_split_append[of "buf @ t1" t2] by simp
  have l: "last (split_nl (buf @ t1 @ t2)) = last (split_nl (last (split_nl (buf @ t1)) @ t2))"
    using last_split_append[of "buf @ t1" t2] by simp
  show ?thesis
  proof (cases "process_lines parse now st (butlast (split_nl (buf @ t1)))")
    case (Pair c st')
    then show ?thesis
      by (cases c)
        (simp_all add: d1 d2 d12 b l process_lines_append Let_def
          split: prod.splits control.splits)
  qed
qed

lemma read_loop_concat:
  "read_loop parse now dec buf st (c # cs) = read_loop parse now dec buf st [concat (c # cs)]"
proof (induction cs arbitrary: c)
  case Nil
  then show ?case by simp
next
  case (Cons c2 cs)
  have "read_loop parse now dec buf st (c # c2 # cs) =
        read_loop parse now dec buf st ((c @ c2) # cs)"
    by (rule read_loop_merge)
  also have "\<dots> = read_loop parse now dec buf st [concat ((c @ c2) # cs)]"
    by (rule Cons.IH)
  finally show ?case by simp
qed

lemma read_loop_single:
  "read_loop parse now dec buf st [c] =
     (case process_lines parse now st (butlast (split_nl (buf @ snd (decode_stream dec c)))) of
        (Stop oc, st') \<Rightarrow> (oc, st')
      | (Continue, st') \<Rightarrow> (Threw StreamEnded, st'))"
  by (simp add: Let_def split: prod.splits control.splits)

text \<open>
  The consumer in one formula: it works through the complete lines of the decoded
  payload, and throws the stream-ended Error when none of them stops it. The segment
  after the last newline is not among the lines.
\<close>

lemma generateViaStream_lines:
  "generateViaStream parse now st chunks =
     (case process_lines parse now (start_run st)
             (butlast (split_nl (snd (decode_stream new_decoder (concat chunks))))) of
        (Stop oc, st') \<Rightarrow> (oc, st')
      | (Continue, st') \<Rightarrow> (Threw StreamEnded, st'))"
proof (cases chunks)
  case Nil
  then show ?thesis by (simp add: generateViaStream_def)
next
  case (Cons c cs)
  have "read_loop parse now new_decoder [] (start_run st) (c # cs) =
        read_loop parse now new_decoder [] (start_run st) [concat (c # cs)]"
    by (rule read_loop_concat)
  then show ?thesis
    using Cons by (simp add: generateViaStream_def read_loop_single del: read_loop.simps)
qed

text \<open>So the run depends on the bytes only, not on where they are cut.\<close>

lemma same_bytes_same_run:
  "concat chunks = concat chunks' \<Longrightarrow>
   generateViaStream parse now st chunks = generateViaStream parse now st chunks'"
  by (simp add: generateViaStream_lines)

text \<open>
  Claim C1 (chunk-boundary invariance). However the bytes of a payload are cut into
  chunks, inside a multi-byte character or not, the consumer ends the same way and in the
  same state as when the payload comes as one chunk; the state holds the list of the
  parsed events in \<open>history\<close>, so the events and their order are the same.
\<close>

theorem chunk_boundary_invariance:
  "generateViaStream parse now st chunks = generateViaStream parse now st [concat chunks]"
proof (cases chunks)
  case Nil
  then show ?thesis by (simp add: generateViaStream_def)
next
  case (Cons c cs)
  have "read_loop parse now new_decoder [] (start_run st) (c # cs) =
        read_loop parse now new_decoder [] (start_run st) [concat (c # cs)]"
    by (rule read_loop_concat)
  then show ?thesis
    using Cons by (simp only: generateViaStream_def)
qed

text \<open>
  An instance: the two bytes of U+00E9 in two chunks. The first chunk gives no text, the
  second the one character.
\<close>

lemma split_character_example:
  "snd (decode_stream new_decoder [0xC3]) = [] \<and>
   snd (decode_stream (fst (decode_stream new_decoder [0xC3])) [0xA9]) = [0xE9] \<and>
   snd (decode_stream new_decoder [0xC3, 0xA9]) = [0xE9]"
  by (simp add: decode_byte_def utf8_handler_def utf8_lead_def new_decoder_def utf16_def)

subsection \<open>Malformed lines\<close>

lemma process_line_unparsed:
  "parse line = None \<Longrightarrow> process_line parse now st line = (Continue, st)"
  by (simp add: process_line_def)

text \<open>
  Claim C4 (resilience to malformed frames). A line on which \<^verbatim>\<open>JSON.parse\<close> throws,
  anywhere in a sequence of lines, changes nothing: the consumer goes on, and it ends as
  it does on the sequence without that line, with the same events delivered in the same
  order, the same page and the same outcome.
\<close>

theorem malformed_line_skipped:
  assumes "parse bad = None"
  shows "process_lines parse now st (pre @ bad # post) = process_lines parse now st (pre @ post)"
  using assms
  by (simp add: process_lines_append process_line_unparsed split: prod.splits control.splits)

theorem malformed_line_skipped_witness:
  "sample_parse (js cut_line) = None \<and>
   process_lines sample_parse seconds (start_run submitted)
     ([js meta_line] @ js cut_line # [js progress_line]) =
   process_lines sample_parse seconds (start_run submitted) ([js meta_line] @ [js progress_line]) \<and>
   fst (process_lines sample_parse seconds (start_run submitted)
     ([js meta_line] @ js cut_line # [js progress_line])) = Continue \<and>
   history (snd (process_lines sample_parse seconds (start_run submitted)
     ([js meta_line] @ js cut_line # [js progress_line]))) = [meta_event, progress_event]"
proof -
  have bad: "sample_parse (js cut_line) = None"
    by (simp add: line_eval js_def)
  have run: "process_lines sample_parse seconds (start_run submitted)
      ([js meta_line] @ [js progress_line]) = (Continue, st) \<Longrightarrow> history st = [meta_event, progress_event]" for st
    by (auto simp add: line_eval js_eval state_eval event_eval)
  have c: "fst (process_lines sample_parse seconds (start_run submitted)
      ([js meta_line] @ [js progress_line])) = Continue"
    by (simp add: line_eval js_eval state_eval event_eval)
  show ?thesis
    using malformed_line_skipped[of sample_parse "js cut_line" seconds "start_run submitted"
        "[js meta_line]" "[js progress_line]"]
      bad run c
    by (metis prod.collapse)
qed

subsection \<open>Dispatch\<close>

lemma js_neq [simp]:
  "js ''progress'' \<noteq> js ''meta''" "js ''done'' \<noteq> js ''meta''"
  "js ''done'' \<noteq> js ''progress''" "js ''error'' \<noteq> js ''meta''"
  "js ''error'' \<noteq> js ''progress''" "js ''error'' \<noteq> js ''done''"
  by (simp_all add: js_def)

lemma handle_meta:
  "field evt (js ''type'') = Some (JStr (js ''meta'')) \<Longrightarrow>
   handle_event now st evt = on_meta st evt"
  by (cases evt) (simp_all add: handle_event_def)

lemma handle_progress:
  "field evt (js ''type'') = Some (JStr (js ''progress'')) \<Longrightarrow>
   handle_event now st evt = on_progress now st evt"
  by (cases evt) (simp_all add: handle_event_def)

lemma handle_done:
  "field evt (js ''type'') = Some (JStr (js ''done'')) \<Longrightarrow>
   handle_event now st evt = on_done st evt"
  by (cases evt) (simp_all add: handle_event_def)

lemma handle_error:
  "field evt (js ''type'') = Some (JStr (js ''error'')) \<Longrightarrow>
   handle_event now st evt = on_error st evt"
  by (cases evt) (simp_all add: handle_event_def)

lemma process_line_event:
  "js_trim line \<noteq> [] \<Longrightarrow> parse line = Some evt \<Longrightarrow>
   process_line parse now st line = handle_event now (st\<lparr>history := history st @ [evt]\<rparr>) evt"
  by (simp add: process_line_def)

lemma js_or_falsy: "falsy a \<Longrightarrow> js_or a b = b"
  by (simp add: js_or_def when_truthy_def)

lemma js_coalesce_nullish: "nullish a \<Longrightarrow> js_coalesce a b = b"
  by (auto simp: js_coalesce_def nullish_def)

subsection \<open>Progress\<close>

text \<open>Rounding keeps the sign, and below \<open>2\<^sup>1\<^sup>0\<^sup>2\<^sup>3\<close> it gives a finite number.\<close>

lemma pow2_pos: "0 < pow2 e"
  by (simp add: pow2_def)

lemma round_even_nonneg: "0 \<le> z \<Longrightarrow> 0 \<le> round_even z"
  by (auto simp: round_even_def Let_def)

lemma round_even_le: "of_int (round_even z) \<le> z + 1"
proof -
  have "round_even z \<le> \<lfloor>z\<rfloor> + 1"
    by (simp add: round_even_def Let_def)
  then have "(of_int (round_even z) :: rat) \<le> of_int (\<lfloor>z\<rfloor> + 1)"
    by (simp only: of_int_le_iff)
  also have "\<dots> \<le> z + 1" by simp
  finally show ?thesis .
qed

lemma fl_pos_nonneg:
  assumes "0 \<le> y"
  shows "nonneg_num (fl_pos y)"
proof -
  let ?e = "max (exponent y - 52) (- 1074)"
  have "0 \<le> y / pow2 ?e" using assms pow2_pos[of ?e] by simp
  then have "0 \<le> round_even (y / pow2 ?e)" by (rule round_even_nonneg)
  then have "0 \<le> (of_int (round_even (y / pow2 ?e)) :: rat) * pow2 ?e"
    using pow2_pos[of ?e] by simp
  then show ?thesis by (simp add: fl_pos_def Let_def)
qed

lemma fl_nonneg: "0 \<le> x \<Longrightarrow> nonneg_num (fl x)"
  by (simp add: fl_def fl_pos_nonneg)

lemma nneg_nonneg: "nonneg_num p \<Longrightarrow> nonpos_num (nneg p)"
  by (cases p) auto

lemma fl_nonpos: "x \<le> 0 \<Longrightarrow> nonpos_num (fl x)"
  by (auto simp: fl_def intro!: nneg_nonneg fl_pos_nonneg)

lemma bit_length_le: "n < 2 ^ k \<Longrightarrow> bit_length n \<le> k"
proof (induction k arbitrary: n)
  case 0
  then show ?case by (simp add: bit_length.simps)
next
  case (Suc k)
  then have "n div 2 < 2 ^ k" by simp
  then have "bit_length (n div 2) \<le> k" by (rule Suc.IH)
  then show ?case by (subst bit_length.simps) simp
qed

lemma exponent_le:
  assumes "0 < y" "y < 2 ^ k" "0 < k"
  shows "exponent y \<le> int k - 1"
proof (cases "1 \<le> y")
  case True
  have "\<lfloor>y\<rfloor> < 2 ^ k" using assms(2) by (simp add: floor_less_iff)
  moreover have "0 \<le> \<lfloor>y\<rfloor>" using True by simp
  ultimately have "nat \<lfloor>y\<rfloor> < 2 ^ k" by (simp add: nat_less_iff)
  then have "bit_length (nat \<lfloor>y\<rfloor>) \<le> k" by (rule bit_length_le)
  then show ?thesis using True by (simp add: exponent_def)
next
  case False
  then show ?thesis using assms(3) by (simp add: exponent_def)
qed

lemma pow2_mono: "a \<le> b \<Longrightarrow> pow2 a \<le> pow2 b"
proof -
  assume ab: "a \<le> b"
  have p: "pow2 e = 2 powi e" for e
    by (simp add: pow2_def power_int_def power_one_over inverse_eq_divide)
  show ?thesis unfolding p using ab by (simp add: power_int_increasing)
qed

lemma fl_pos_small:
  assumes "0 < y" "y < 2 ^ 1023"
  shows "\<exists>v. fl_pos y = Fin v \<and> 0 \<le> v \<and> v \<le> y + 2 ^ 970"
proof -
  let ?e = "max (exponent y - 52) (- 1074)"
  let ?v = "of_int (round_even (y / pow2 ?e)) * pow2 ?e"
  have "exponent y \<le> 1022" using exponent_le[OF assms] by simp
  then have "?e \<le> 970" by simp
  then have pe: "pow2 ?e \<le> pow2 970" by (rule pow2_mono)
  have p970: "pow2 970 = 2 ^ 970" by (simp add: pow2_def)
  have "?v \<le> (y / pow2 ?e + 1) * pow2 ?e"
    using round_even_le[of "y / pow2 ?e"] pow2_pos[of ?e]
    by (simp add: mult_right_mono)
  also have "\<dots> = y + pow2 ?e"
    using pow2_pos[of ?e] by (simp add: field_simps)
  finally have up: "?v \<le> y + 2 ^ 970" using pe p970 by simp
  have "y + 2 ^ 970 < (2 ^ 1024 :: rat)" using assms(2) by simp
  then have "?v < pow2 1024" using up by (simp add: pow2_def)
  moreover have "0 \<le> ?v"
    using assms(1) pow2_pos[of ?e] by (simp add: round_even_nonneg)
  ultimately show ?thesis using up by (simp add: fl_pos_def Let_def)
qed

lemma fl_small:
  assumes "0 \<le> x" "x < 2 ^ 1023"
  shows "\<exists>v. fl x = Fin v \<and> 0 \<le> v \<and> v \<le> x + 2 ^ 970"
proof (cases "x = 0")
  case True
  then show ?thesis by (simp add: fl_def)
next
  case False
  then have "0 < x" using assms(1) by simp
  then show ?thesis using fl_pos_small[OF _ assms(2)] False by (simp add: fl_def)
qed

text \<open>Evaluating \<open>fl\<close> at a given fraction.\<close>

lemma floor_fraction:
  "\<lfloor>numeral a / numeral b :: rat\<rfloor> = numeral a div numeral b"
  "\<lfloor>- (numeral a / numeral b) :: rat\<rfloor> = - numeral a div numeral b"
  "\<lfloor>1 / numeral b :: rat\<rfloor> = 1 div numeral b"
  "\<lfloor>- (1 / numeral b) :: rat\<rfloor> = - 1 div numeral b"
  using floor_divide_of_int_eq[of "numeral a" "numeral b", where ?'a = rat]
    floor_divide_of_int_eq[of "- numeral a" "numeral b", where ?'a = rat]
    floor_divide_of_int_eq[of 1 "numeral b", where ?'a = rat]
    floor_divide_of_int_eq[of "- 1" "numeral b", where ?'a = rat]
  by simp_all

lemma ceiling_fraction:
  "\<lceil>numeral a / numeral b :: rat\<rceil> = - (- numeral a div numeral b)"
  "\<lceil>1 / numeral b :: rat\<rceil> = - (- 1 div numeral b)"
  by (simp_all add: ceiling_def floor_fraction)

lemmas fl_eval = fl_def fl_pos_def exponent_def pow2_def round_even_def bit_length.simps
  js_round_def floor_fraction ceiling_fraction Let_def

text \<open>
  Some values: 0.1 and 23/40 are not doubles, and the products the script forms from
  their doubles fall below the half that exact arithmetic would reach.
\<close>

lemma double_examples:
  "fl (1 / 10) = Fin (3602879701896397 / 36028797018963968)"
  "ndiv (Fin 23) (Fin 40) = Fin (2589569785738035 / 4503599627370496)"
  "nmul (ndiv (Fin 23) (Fin 40)) (Fin 100) = Fin (8092405580431359 / 140737488355328)"
  "nround (nmul (ndiv (Fin 23) (Fin 40)) (Fin 100)) = Fin 57"
  "nround (nmul (ndiv (Fin 29) (Fin 200)) (Fin 100)) = Fin 14"
  "nround (nmul (ndiv (Fin 57) (Fin 200)) (Fin 100)) = Fin 28"
  "nround (nmul (ndiv (Fin 113) (Fin 200)) (Fin 100)) = Fin 56"
  "nround (nmul (ndiv (Fin 115) (Fin 200)) (Fin 100)) = Fin 57"
  "nround (nmul (ndiv (Fin 1) (Fin 3)) (Fin 100)) = Fin 33"
  "nround (nmul (ndiv (Fin 1) (Fin 2)) (Fin 100)) = Fin 50"
  "nround (nmul (ndiv (Fin 1) (Fin 200)) (Fin 100)) = Fin 1"
  "fl (- (1 / 10)) = Fin (- (3602879701896397 / 36028797018963968))"
  "nsub (Fin 1) (Fin 3) = Fin (- 2)"
  by (simp_all add: fl_eval)

text \<open>
  A tie goes to the even neighbour, and half of the smallest positive double is rounded
  to zero: a quotient can be 0 when its numerator is not.
\<close>

lemma double_range_examples:
  "fl 9007199254740993 = Fin 9007199254740992"
  "fl 9007199254740995 = Fin 9007199254740996"
  "ndiv (Fin (1 / 2 ^ 1074)) (Fin 2) = Fin 0"
  by (simp_all add: fl_eval)

lemma js_round_nonneg: "0 \<le> x \<Longrightarrow> 0 \<le> js_round x"
  by (simp add: js_round_def)

lemma js_round_nonpos: "x \<le> 0 \<Longrightarrow> js_round x \<le> 0"
  by (simp add: js_round_def floor_le_iff)

lemma ndiv_nonneg: "0 \<le> a \<Longrightarrow> 0 < b \<Longrightarrow> nonneg_num (ndiv (Fin a) (Fin b))"
  by (simp add: fl_nonneg)

lemma nmul_nonneg: "nonneg_num p \<Longrightarrow> 0 < c \<Longrightarrow> nonneg_num (nmul p (Fin c))"
  by (cases p) (simp_all add: fl_nonneg inf_times_def)

lemma nround_nonneg: "nonneg_num p \<Longrightarrow> nonneg_num (nround p)"
  by (cases p) (simp_all add: js_round_nonneg)

lemma nround_nonpos: "nonpos_num p \<Longrightarrow> nonpos_num (nround p)"
  by (cases p) (simp_all add: js_round_nonpos)

lemma clamp_nonneg:
  "nonneg_num p \<Longrightarrow> \<exists>w. nmax (Fin 0) (nmin (Fin 100) p) = Fin w \<and> 0 \<le> w \<and> w \<le> 100"
  by (cases p) auto

lemma nmax_nonneg: "nonneg_num p \<Longrightarrow> nmax (Fin 0) p = p"
  by (cases p) auto

lemma nmax_nonpos: "nonpos_num p \<Longrightarrow> nmax (Fin 0) p = Fin 0"
  by (cases p) auto

lemma percent_nat:
  "percent (JNum (of_nat d)) (JNum (of_nat t)) =
     Some (if t = 0 then Fin 0
           else nround (nmul (ndiv (Fin (of_nat d)) (Fin (of_nat t))) (Fin 100)))"
  by (simp add: percent_def)

lemma percent_nonneg:
  "0 < t \<Longrightarrow>
   nonneg_num (nround (nmul (ndiv (Fin (of_nat d)) (Fin (of_nat t))) (Fin 100)))"
  by (intro nround_nonneg nmul_nonneg ndiv_nonneg) simp_all

lemma on_progress_ui:
  "ui (snd (on_progress now st evt)) =
     setProgress
       (percent (done_count (snd (on_progress now st evt))) (total (snd (on_progress now st evt))))
       (Processing (js_coalesce (field evt (js ''req'')) (JStr (js ''?'')))
          (when_truthy (field evt (js ''scenario'')))
          (done_count (snd (on_progress now st evt))) (total (snd (on_progress now st evt)))
          (etaSec (done_count (snd (on_progress now st evt))) (total (snd (on_progress now st evt)))
             (elapsed now st)))
       (ui st)"
  by (simp add: on_progress_def Let_def)

text \<open>
  Claim C2 (percent bounds). After a \<^verbatim>\<open>progress\<close> event that leaves the tracked \<^verbatim>\<open>done\<close>
  and \<^verbatim>\<open>total\<close> at the non-negative integers \<open>d\<close> and \<open>t\<close>, the width given to the
  progress bar is 0 when \<open>t = 0\<close> and otherwise \<^verbatim>\<open>Math.round((done / total) * 100)\<close>, the
  division and the product rounded as doubles, clamped to 0..100; in both cases it is a
  finite number between 0 and 100, also when \<open>d\<close> exceeds \<open>t\<close>.
\<close>

theorem percent_bounds:
  assumes "field evt (js ''type'') = Some (JStr (js ''progress''))"
    and "done_count (snd (handle_event now st evt)) = JNum (of_nat d)"
    and "total (snd (handle_event now st evt)) = JNum (of_nat t)"
  shows "bar_width (ui (snd (handle_event now st evt))) =
           Some (if t = 0 then Fin 0
                 else nmax (Fin 0) (nmin (Fin 100)
                        (nround (nmul (ndiv (Fin (of_nat d)) (Fin (of_nat t))) (Fin 100))))) \<and>
         (\<exists>w. bar_width (ui (snd (handle_event now st evt))) = Some (Fin w) \<and>
              0 \<le> w \<and> w \<le> 100)"
proof -
  have h: "handle_event now st evt = on_progress now st evt"
    using assms(1) by (rule handle_progress)
  have w: "bar_width (ui (snd (handle_event now st evt))) =
      Some (if t = 0 then Fin 0
            else nmax (Fin 0) (nmin (Fin 100)
                   (nround (nmul (ndiv (Fin (of_nat d)) (Fin (of_nat t))) (Fin 100)))))"
    using assms(2,3) unfolding h
    by (subst on_progress_ui) (simp add: percent_nat setProgress_def)
  show ?thesis
  proof (cases "t = 0")
    case True
    then show ?thesis using w by simp
  next
    case False
    then have "0 < t" by simp
    then obtain v where "nmax (Fin 0) (nmin (Fin 100)
        (nround (nmul (ndiv (Fin (of_nat d)) (Fin (of_nat t))) (Fin 100)))) = Fin v"
      "0 \<le> v" "v \<le> 100"
      using clamp_nonneg[OF percent_nonneg] by blast
    then show ?thesis using w False by simp
  qed
qed

theorem percent_bounds_witness:
  "field (JObj [(js ''type'', JStr (js ''progress'')), (js ''done'', JNum 23), (js ''total'', JNum 40)])
     (js ''type'') = Some (JStr (js ''progress'')) \<and>
   done_count (snd (handle_event seconds (start_run submitted)
      (JObj [(js ''type'', JStr (js ''progress'')), (js ''done'', JNum 23), (js ''total'', JNum 40)])))
     = JNum (of_nat 23) \<and>
   total (snd (handle_event seconds (start_run submitted)
      (JObj [(js ''type'', JStr (js ''progress'')), (js ''done'', JNum 23), (js ''total'', JNum 40)])))
     = JNum (of_nat 40) \<and>
   bar_width (ui (snd (handle_event seconds (start_run submitted)
      (JObj [(js ''type'', JStr (js ''progress'')), (js ''done'', JNum 23), (js ''total'', JNum 40)]))))
     = Some (Fin 57) \<and>
   field (JObj [(js ''type'', JStr (js ''progress'')), (js ''done'', JNum 5)]) (js ''type'') =
     Some (JStr (js ''progress'')) \<and>
   done_count (snd (handle_event seconds (snd (on_meta (start_run submitted) meta_event))
      (JObj [(js ''type'', JStr (js ''progress'')), (js ''done'', JNum 5)]))) = JNum (of_nat 5) \<and>
   total (snd (handle_event seconds (snd (on_meta (start_run submitted) meta_event))
      (JObj [(js ''type'', JStr (js ''progress'')), (js ''done'', JNum 5)]))) = JNum (of_nat 3) \<and>
   bar_width (ui (snd (handle_event seconds (snd (on_meta (start_run submitted) meta_event))
      (JObj [(js ''type'', JStr (js ''progress'')), (js ''done'', JNum 5)])))) = Some (Fin 100)"
proof -
  let ?a = "JObj [(js ''type'', JStr (js ''progress'')), (js ''done'', JNum 23), (js ''total'', JNum 40)]"
  let ?e = "JObj [(js ''type'', JStr (js ''progress'')), (js ''done'', JNum 5)]"
  let ?s = "snd (on_meta (start_run submitted) meta_event)"
  have ty: "field ?a (js ''type'') = Some (JStr (js ''progress''))"
    "field ?e (js ''type'') = Some (JStr (js ''progress''))"
    by (simp_all add: js_def)
  have da: "done_count (snd (handle_event seconds (start_run submitted) ?a)) = JNum (of_nat 23)"
    by (simp add: js_eval state_eval event_eval)
  have ta: "total (snd (handle_event seconds (start_run submitted) ?a)) = JNum (of_nat 40)"
    by (simp add: js_eval state_eval event_eval)
  have d: "done_count (snd (handle_event seconds ?s ?e)) = JNum (of_nat 5)"
    by (simp add: js_eval state_eval event_eval)
  have t: "total (snd (handle_event seconds ?s ?e)) = JNum (of_nat 3)"
    by (simp add: js_eval state_eval event_eval)
  have ra: "nround (nmul (ndiv (Fin (of_nat 23)) (Fin (of_nat 40))) (Fin 100)) = Fin 57"
    by (simp add: fl_eval)
  have r: "nround (nmul (ndiv (Fin (of_nat 5)) (Fin (of_nat 3))) (Fin 100)) = Fin 167"
    by (simp add: fl_eval)
  have wa: "bar_width (ui (snd (handle_event seconds (start_run submitted) ?a))) = Some (Fin 57)"
    using percent_bounds[OF ty(1) da ta] unfolding ra by simp
  have w: "bar_width (ui (snd (handle_event seconds ?s ?e))) = Some (Fin 100)"
    using percent_bounds[OF ty(2) d t] unfolding r by simp
  show ?thesis
    using ty da ta d t wa w by blast
qed

lemma elapsed_finite:
  assumes "0 \<le> now 0" "now 0 \<le> now (clock_reads st)" "now (clock_reads st) < 2 ^ 1023"
  shows "\<exists>e. elapsed now st = Fin e \<and> 0 \<le> e \<and> e < 2 ^ 1023 \<and>
             (now (clock_reads st) = now 0 \<longrightarrow> e = 0)"
proof -
  let ?x = "now (clock_reads st) - now 0"
  have x: "0 \<le> ?x" "?x < 2 ^ 1023" using assms by simp_all
  then obtain e0 where e0: "fl ?x = Fin e0" "0 \<le> e0" "e0 \<le> ?x + 2 ^ 970"
    using fl_small[of ?x] by blast
  have z: "?x = 0 \<Longrightarrow> e0 = 0" using e0(1) by (simp add: fl_def)
  have b: "e0 / 1000 < 2 ^ 1023" using e0(3) x(2) by simp
  have "0 \<le> e0 / 1000" using e0(2) by simp
  then obtain e where e: "fl (e0 / 1000) = Fin e" "0 \<le> e" "e \<le> e0 / 1000 + 2 ^ 970"
    using fl_small[OF _ b] by blast
  have "e < 2 ^ 1023" using e(3) e0(3) x(2) by simp
  moreover have "elapsed now st = Fin e"
    using e0(1) e(1) by (simp add: elapsed_def)
  moreover have "now (clock_reads st) = now 0 \<longrightarrow> e = 0"
    using z e(1) by (auto simp: fl_def)
  ultimately show ?thesis using e(2) by blast
qed

lemma average_finite:
  assumes "0 \<le> e" "e < 2 ^ 1023" "0 < d"
  shows "\<exists>a. ndiv (Fin e) (Fin (of_nat d)) = Fin a \<and> 0 \<le> a \<and> (e = 0 \<longrightarrow> a = 0)"
proof -
  have "e / of_nat d \<le> e"
    using assms(1,3) by (simp add: divide_le_eq mult_le_cancel_left1)
  then have "e / of_nat d < 2 ^ 1023" using assms(2) by simp
  moreover have "0 \<le> e / of_nat d" using assms(1) by simp
  ultimately obtain a where "fl (e / of_nat d) = Fin a" "0 \<le> a"
    using fl_small[of "e / of_nat d"] by blast
  moreover have "e = 0 \<Longrightarrow> fl (e / of_nat d) = Fin 0" by (simp add: fl_def)
  ultimately show ?thesis using assms(3) by auto
qed

lemma nsub_nat_sign:
  "d \<le> t \<Longrightarrow> nonneg_num (nsub (Fin (of_nat t)) (Fin (of_nat d)))"
  "t < d \<Longrightarrow> nonpos_num (nsub (Fin (of_nat t)) (Fin (of_nat d)))"
  by (simp_all add: fl_nonneg fl_nonpos)

lemma nmul_pos_nonpos: "0 < a \<Longrightarrow> nonpos_num p \<Longrightarrow> nonpos_num (nmul (Fin a) p)"
  by (cases p) (simp_all add: fl_nonpos mult_nonneg_nonpos inf_times_def)

lemma nmul_pos_nonneg: "0 < a \<Longrightarrow> nonneg_num p \<Longrightarrow> nonneg_num (nmul (Fin a) p)"
  by (cases p) (simp_all add: fl_nonneg inf_times_def)

text \<open>
  The estimate for tracked values that are natural numbers and a finite, non-negative
  time: the guard \<^verbatim>\<open>avg && total\<close>, and \<^verbatim>\<open>total - done\<close> replaced by its positive part.
\<close>

lemma eta_nat:
  assumes "0 \<le> e" "e < 2 ^ 1023"
  shows "etaSec (JNum (of_nat d)) (JNum (of_nat t)) (Fin e) =
     (if d = 0 \<or> t = 0 \<or> \<not> ntruthy (ndiv (Fin e) (Fin (of_nat d))) then EtaNull
      else EtaSec (nmax (Fin 0) (nround (nmul (ndiv (Fin e) (Fin (of_nat d)))
                    (nmax (Fin 0) (nsub (Fin (of_nat t)) (Fin (of_nat d)))))))) \<and>
     (\<forall>s. etaSec (JNum (of_nat d)) (JNum (of_nat t)) (Fin e) = EtaSec s \<longrightarrow> nonneg_num s)"
proof (cases "d = 0 \<or> t = 0 \<or> \<not> ntruthy (ndiv (Fin e) (Fin (of_nat d)))")
  case True
  have "etaSec (JNum (of_nat d)) (JNum (of_nat t)) (Fin e) = EtaNull"
  proof (cases "d = 0")
    case True
    then show ?thesis by (simp add: etaSec_def average_def)
  next
    case False
    then show ?thesis using True by (auto simp: etaSec_def average_def)
  qed
  then show ?thesis using True by simp
next
  case False
  then have d: "0 < d" and t: "0 < t" by simp_all
  obtain a where a: "ndiv (Fin e) (Fin (of_nat d)) = Fin a" "0 \<le> a"
    using average_finite[OF assms d] by blast
  have a': "fl (e / of_nat d) = Fin a" using a(1) d by simp
  from False have "ntruthy (ndiv (Fin e) (Fin (of_nat d)))" by blast
  then have "ntruthy (Fin a)" by (simp only: a(1))
  then have pos: "0 < a" using a(2) by simp
  let ?S = "nsub (Fin (of_nat t)) (Fin (of_nat d))"
  have code: "etaSec (JNum (of_nat d)) (JNum (of_nat t)) (Fin e) =
      EtaSec (nmax (Fin 0) (nround (nmul (Fin a) ?S)))"
    using d t a' pos by (simp add: etaSec_def average_def)
  have same: "nmax (Fin 0) (nround (nmul (Fin a) ?S)) =
      nmax (Fin 0) (nround (nmul (Fin a) (nmax (Fin 0) ?S)))"
    and nn: "nonneg_num (nmax (Fin 0) (nround (nmul (Fin a) ?S)))"
  proof -
    show "nmax (Fin 0) (nround (nmul (Fin a) ?S)) =
        nmax (Fin 0) (nround (nmul (Fin a) (nmax (Fin 0) ?S)))"
    proof (cases "d \<le> t")
      case True
      then have "nonneg_num ?S" by (rule nsub_nat_sign(1))
      then have "nmax (Fin 0) ?S = ?S" by (rule nmax_nonneg)
      then show ?thesis by (simp only:)
    next
      case lt: False
      then have "t < d" by simp
      then have np: "nonpos_num ?S" by (rule nsub_nat_sign(2))
      then have "nonpos_num (nmul (Fin a) ?S)" by (rule nmul_pos_nonpos[OF pos])
      then have "nonpos_num (nround (nmul (Fin a) ?S))" by (rule nround_nonpos)
      then have l: "nmax (Fin 0) (nround (nmul (Fin a) ?S)) = Fin 0"
        by (rule nmax_nonpos)
      have z: "nmax (Fin 0) ?S = Fin 0" using np by (rule nmax_nonpos)
      have "nmax (Fin 0) (nround (nmul (Fin a) (Fin 0))) = Fin 0"
        by (simp add: fl_def js_round_def)
      then show ?thesis by (simp only: l z)
    qed
    show "nonneg_num (nmax (Fin 0) (nround (nmul (Fin a) ?S)))"
    proof (cases "d \<le> t")
      case True
      then have "nonneg_num ?S" by (rule nsub_nat_sign(1))
      then have "nonneg_num (nmul (Fin a) ?S)" by (rule nmul_pos_nonneg[OF pos])
      then have r: "nonneg_num (nround (nmul (Fin a) ?S))" by (rule nround_nonneg)
      then have "nmax (Fin 0) (nround (nmul (Fin a) ?S)) = nround (nmul (Fin a) ?S)"
        by (rule nmax_nonneg)
      then show ?thesis using r by (simp only:)
    next
      case lt: False
      then have "t < d" by simp
      then have "nonpos_num ?S" by (rule nsub_nat_sign(2))
      then have "nonpos_num (nmul (Fin a) ?S)" by (rule nmul_pos_nonpos[OF pos])
      then have "nonpos_num (nround (nmul (Fin a) ?S))" by (rule nround_nonpos)
      then have "nmax (Fin 0) (nround (nmul (Fin a) ?S)) = Fin 0" by (rule nmax_nonpos)
      then show ?thesis by (simp only: nonneg_num.simps)
    qed
  qed
  have cond: "\<not> (d = 0 \<or> t = 0 \<or> \<not> ntruthy (ndiv (Fin e) (Fin (of_nat d))))"
    using False .
  have "etaSec (JNum (of_nat d)) (JNum (of_nat t)) (Fin e) =
      EtaSec (nmax (Fin 0) (nround (nmul (ndiv (Fin e) (Fin (of_nat d)))
                (nmax (Fin 0) ?S))))"
    using code same by (simp only: a(1))
  moreover have "\<forall>s. etaSec (JNum (of_nat d)) (JNum (of_nat t)) (Fin e) = EtaSec s \<longrightarrow>
      nonneg_num s"
    using nn by (simp only: code eta.inject simp_thms)
  ultimately show ?thesis using cond by (simp only: if_False simp_thms)
qed


text \<open>
  Claim C3 (the estimate) does not hold as stated: the estimate is unknown for more
  inputs than \<open>done = 0\<close>. A first \<^verbatim>\<open>progress\<close> event with \<^verbatim>\<open>done\<close> 1 and no \<^verbatim>\<open>total\<close>,
  one second after the start and with no \<^verbatim>\<open>meta\<close> event before it, leaves \<^verbatim>\<open>total\<close> at 0
  and the estimate \<^verbatim>\<open>null\<close>.
\<close>

theorem eta_unknown_counterexample:
  "done_count (snd (handle_event seconds (start_run submitted)
      (JObj [(js ''type'', JStr (js ''progress'')), (js ''done'', JNum 1)]))) = JNum 1 \<and>
   progress_text (ui (snd (handle_event seconds (start_run submitted)
      (JObj [(js ''type'', JStr (js ''progress'')), (js ''done'', JNum 1)])))) =
     Processing (JStr (js ''?'')) None (JNum 1) (JNum 0) EtaNull"
  by (simp add: js_eval state_eval event_eval etaSec_def average_def percent_def)

text \<open>
  Claim C3, amended. After a \<^verbatim>\<open>progress\<close> event that leaves the tracked \<^verbatim>\<open>done\<close> and
  \<^verbatim>\<open>total\<close> at the non-negative integers \<open>d\<close> and \<open>t\<close>, with clock readings that are
  non-negative doubles and have not gone back, the estimate in the progress text is
  unknown exactly when \<open>d = 0\<close>, \<open>t = 0\<close> or the average \<^verbatim>\<open>elapsedSec / done\<close> the script
  computes is 0 (the guard \<^verbatim>\<open>avg && total\<close>), as it is when no time has elapsed; otherwise
  it is \<^verbatim>\<open>Math.max(0, Math.round(avg * Math.max(0, total - done)))\<close> in the arithmetic of
  doubles, which is not negative.
\<close>

theorem eta_value:
  assumes "field evt (js ''type'') = Some (JStr (js ''progress''))"
    and "done_count (snd (handle_event now st evt)) = JNum (of_nat d)"
    and "total (snd (handle_event now st evt)) = JNum (of_nat t)"
    and "0 \<le> now 0" and "now 0 \<le> now (clock_reads st)" and "now (clock_reads st) < 2 ^ 1023"
  shows "\<exists>req scenario eta.
           progress_text (ui (snd (handle_event now st evt))) =
             Processing req scenario (JNum (of_nat d)) (JNum (of_nat t)) eta \<and>
           eta =
             (if d = 0 \<or> t = 0 \<or> \<not> ntruthy (ndiv (elapsed now st) (Fin (of_nat d)))
              then EtaNull
              else EtaSec (nmax (Fin 0) (nround (nmul (ndiv (elapsed now st) (Fin (of_nat d)))
                             (nmax (Fin 0) (nsub (Fin (of_nat t)) (Fin (of_nat d)))))))) \<and>
           (now (clock_reads st) = now 0 \<longrightarrow> eta = EtaNull) \<and>
           (\<forall>s. eta = EtaSec s \<longrightarrow> nonneg_num s)"
proof -
  have h: "handle_event now st evt = on_progress now st evt"
    using assms(1) by (rule handle_progress)
  obtain e where e: "elapsed now st = Fin e" "0 \<le> e" "e < 2 ^ 1023"
    "now (clock_reads st) = now 0 \<longrightarrow> e = 0"
    using elapsed_finite[OF assms(4-6)] by blast
  note eta = eta_nat[OF e(2,3), of d t]
  have zero: "now (clock_reads st) = now 0 \<Longrightarrow>
      d = 0 \<or> \<not> ntruthy (ndiv (Fin e) (Fin (of_nat d)))"
    using e(4) by (cases "d = 0") (simp_all add: fl_def)
  have shown: "progress_text (ui (snd (handle_event now st evt))) =
      Processing (js_coalesce (field evt (js ''req'')) (JStr (js ''?'')))
        (when_truthy (field evt (js ''scenario''))) (JNum (of_nat d)) (JNum (of_nat t))
        (etaSec (JNum (of_nat d)) (JNum (of_nat t)) (Fin e))"
    using assms(2,3) unfolding h
    by (subst on_progress_ui) (simp add: setProgress_def e(1))
  have null: "now (clock_reads st) = now 0 \<longrightarrow>
      etaSec (JNum (of_nat d)) (JNum (of_nat t)) (Fin e) = EtaNull"
    using eta zero by auto
  show ?thesis
    unfolding e(1) using shown eta null by blast
qed

theorem eta_value_witness:
  "field (JObj [(js ''type'', JStr (js ''progress'')), (js ''done'', JNum 5), (js ''total'', JNum 50)])
     (js ''type'') = Some (JStr (js ''progress'')) \<and>
   done_count (snd (handle_event lap (start_run submitted)
     (JObj [(js ''type'', JStr (js ''progress'')), (js ''done'', JNum 5), (js ''total'', JNum 50)])))
     = JNum (of_nat 5) \<and>
   total (snd (handle_event lap (start_run submitted)
     (JObj [(js ''type'', JStr (js ''progress'')), (js ''done'', JNum 5), (js ''total'', JNum 50)])))
     = JNum (of_nat 50) \<and>
   0 \<le> lap 0 \<and> lap 0 \<le> lap (clock_reads (start_run submitted)) \<and>
   lap (clock_reads (start_run submitted)) < 2 ^ 1023 \<and>
   elapsed lap (start_run submitted) = Fin (7 / 2) \<and>
   progress_text (ui (snd (handle_event lap (start_run submitted)
     (JObj [(js ''type'', JStr (js ''progress'')), (js ''done'', JNum 5), (js ''total'', JNum 50)])))) =
     Processing (JStr (js ''?'')) None (JNum 5) (JNum 50) (EtaSec (Fin 31))"
proof -
  let ?s = "start_run submitted"
  let ?e = "JObj [(js ''type'', JStr (js ''progress'')), (js ''done'', JNum 5), (js ''total'', JNum 50)]"
  have ty: "field ?e (js ''type'') = Some (JStr (js ''progress''))"
    by (simp add: js_def)
  have d: "done_count (snd (handle_event lap ?s ?e)) = JNum (of_nat 5)"
    by (simp add: js_eval state_eval event_eval)
  have t: "total (snd (handle_event lap ?s ?e)) = JNum (of_nat 50)"
    by (simp add: js_eval state_eval event_eval)
  have c: "0 \<le> lap 0" "lap 0 \<le> lap (clock_reads ?s)" "lap (clock_reads ?s) < 2 ^ 1023"
    by (simp_all add: state_eval lap_def)
  have el: "elapsed lap ?s = Fin (7 / 2)"
    by (simp add: elapsed_def state_eval lap_def fl_eval)
  have av: "ndiv (Fin (7 / 2)) (Fin (of_nat 5)) = Fin (3152519739159347 / 4503599627370496)"
    by (simp add: fl_eval)
  have su: "nmax (Fin 0) (nsub (Fin (of_nat 50)) (Fin (of_nat 5))) = Fin 45"
    by (simp add: fl_eval)
  have pr: "nround (nmul (Fin (3152519739159347 / 4503599627370496)) (Fin 45)) = Fin 31"
    by (simp add: fl_eval)
  have rq: "progress_text (ui (snd (handle_event lap ?s ?e))) =
      Processing req scenario (JNum (of_nat 5)) (JNum (of_nat 50)) eta \<Longrightarrow>
      req = JStr (js ''?'') \<and> scenario = None" for req scenario eta
    by (simp add: js_eval state_eval event_eval)
  have shown: "progress_text (ui (snd (handle_event lap ?s ?e))) =
     Processing (JStr (js ''?'')) None (JNum 5) (JNum 50) (EtaSec (Fin 31))"
    using eta_value[OF ty d t c] rq unfolding el av su pr by auto
  show ?thesis using ty d t c el shown by blast
qed

text \<open>
  Claim C10 (zero treated as absent). A \<^verbatim>\<open>progress\<close> event whose \<^verbatim>\<open>total\<close> is 0, or falsy
  in any other way, leaves the tracked total as it was; one whose \<^verbatim>\<open>done\<close> is missing, 0
  or falsy sets the tracked count to 0; a \<^verbatim>\<open>meta\<close> event with a falsy \<^verbatim>\<open>total_blocks\<close>
  sets the tracked total to 0.
\<close>

theorem falsy_fields_default:
  "(field evt (js ''type'') = Some (JStr (js ''progress'')) \<and>
    field evt (js ''total'') = Some (JNum 0) \<longrightarrow>
      total (snd (handle_event now st evt)) = total st) \<and>
   (field evt (js ''type'') = Some (JStr (js ''progress'')) \<and> falsy (field evt (js ''total'')) \<longrightarrow>
      total (snd (handle_event now st evt)) = total st) \<and>
   (field evt (js ''type'') = Some (JStr (js ''progress'')) \<and> falsy (field evt (js ''done'')) \<longrightarrow>
      done_count (snd (handle_event now st evt)) = JNum 0) \<and>
   (field evt (js ''type'') = Some (JStr (js ''meta'')) \<and>
    falsy (field evt (js ''total_blocks'')) \<longrightarrow>
      total (snd (handle_event now st evt)) = JNum 0)"
proof -
  have z: "falsy (Some (JNum 0))" by (simp add: falsy_def)
  show ?thesis
    using z by (auto simp: handle_progress handle_meta on_progress_def on_meta_def Let_def js_or_falsy)
qed

theorem falsy_fields_default_witness:
  "field (JObj [(js ''type'', JStr (js ''progress'')), (js ''done'', JNull), (js ''total'', JNum 0)])
     (js ''type'') = Some (JStr (js ''progress'')) \<and>
   field (JObj [(js ''type'', JStr (js ''progress'')), (js ''done'', JNull), (js ''total'', JNum 0)])
     (js ''total'') = Some (JNum 0) \<and>
   falsy (field (JObj [(js ''type'', JStr (js ''progress'')), (js ''done'', JNull), (js ''total'', JNum 0)])
     (js ''done'')) \<and>
   total (snd (on_meta (start_run submitted) meta_event)) = JNum 3 \<and>
   total (snd (handle_event seconds (snd (on_meta (start_run submitted) meta_event))
     (JObj [(js ''type'', JStr (js ''progress'')), (js ''done'', JNull), (js ''total'', JNum 0)]))) = JNum 3 \<and>
   done_count (snd (handle_event seconds (snd (on_meta (start_run submitted) meta_event))
     (JObj [(js ''type'', JStr (js ''progress'')), (js ''done'', JNull), (js ''total'', JNum 0)]))) = JNum 0 \<and>
   field (JObj [(js ''type'', JStr (js ''meta'')), (js ''total_blocks'', JStr [])]) (js ''type'') =
     Some (JStr (js ''meta'')) \<and>
   falsy (field (JObj [(js ''type'', JStr (js ''meta'')), (js ''total_blocks'', JStr [])])
     (js ''total_blocks'')) \<and>
   total (snd (handle_event seconds (snd (on_meta (start_run submitted) meta_event))
     (JObj [(js ''type'', JStr (js ''meta'')), (js ''total_blocks'', JStr [])]))) = JNum 0"
proof -
  let ?p = "JObj [(js ''type'', JStr (js ''progress'')), (js ''done'', JNull), (js ''total'', JNum 0)]"
  let ?m = "JObj [(js ''type'', JStr (js ''meta'')), (js ''total_blocks'', JStr [])]"
  let ?s = "snd (on_meta (start_run submitted) meta_event)"
  have a: "field ?p (js ''type'') = Some (JStr (js ''progress''))"
    "field ?p (js ''total'') = Some (JNum 0)" "falsy (field ?p (js ''done''))"
    "field ?m (js ''type'') = Some (JStr (js ''meta''))" "falsy (field ?m (js ''total_blocks''))"
    by (simp_all add: js_def falsy_def)
  have t: "total ?s = JNum 3"
    by (simp add: js_eval state_eval event_eval)
  show ?thesis
    using falsy_fields_default[of ?p seconds ?s] falsy_fields_default[of ?m seconds ?s] a t
    by simp
qed

subsection \<open>Completion\<close>

lemma applyDoneUI_metrics:
  "m_input (fst (applyDoneUI data p)) =
     js_coalesce (opt_chain (field data (js ''usage'')) (js ''input_tokens'')) (JNum 0)"
  "m_output (fst (applyDoneUI data p)) =
     js_coalesce (opt_chain (field data (js ''usage'')) (js ''output_tokens'')) (JNum 0)"
  "m_time (fst (applyDoneUI data p)) = js_coalesce (field data (js ''elapsed'')) (JNum 0)"
  "m_req (fst (applyDoneUI data p)) =
     js_coalesce (field (stats_of data) (js ''requirements_total'')) (JNum 0)"
  "m_tc (fst (applyDoneUI data p)) =
     js_coalesce (field (stats_of data) (js ''test_cases_total'')) (JNum 0)"
  "m_not (fst (applyDoneUI data p)) =
     js_coalesce (field (stats_of data) (js ''requirements_not_testable'')) (JNum 0)"
  "m_limit (fst (applyDoneUI data p)) =
     js_coalesce (field (stats_of data) (js ''requirements_limit_reached_total'')) (JNum 0)"
  "m_area (fst (applyDoneUI data p)) =
     js_coalesce (field (stats_of data) (js ''area_path''))
       (js_coalesce (field (stats_of data) (js ''project_id'')) (JStr (js ''-'')))"
  "ready_filename (fst (applyDoneUI data p)) =
     js_or (field data (js ''filename'')) (JStr (js ''TC.csv''))"
  by (simp_all add: applyDoneUI_def Let_def split: prod.splits bool.splits)

lemma append_items_ok: "snd (append_items xs acc) \<longleftrightarrow> JNull \<notin> set xs"
  by (induction xs arbitrary: acc) auto

lemma applyDoneUI_ok: "snd (applyDoneUI data p) \<longleftrightarrow> JNull \<notin> set (detail_of (stats_of data))"
  using append_items_ok[of "detail_of (stats_of data)" "[]"]
  by (auto simp: applyDoneUI_def Let_def split: prod.splits bool.splits)

lemma on_done_ui:
  "ui (snd (on_done st evt)) =
     fst (applyDoneUI evt (showOk (done_notice evt) (setProgress (Some (Fin 100)) Completed (ui st))))"
  by (auto simp: on_done_def Let_def split: prod.splits bool.splits)

lemma on_done_ok:
  assumes "JNull \<notin> set (detail_of (stats_of evt))"
  shows "on_done st evt =
     (Stop Returned,
      st\<lparr>ui := fst (applyDoneUI evt
                     (showOk (done_notice evt) (setProgress (Some (Fin 100)) Completed (ui st)))),
         lastCsvB64 := when_truthy (field evt (js ''csv_b64'')),
         lastFilename := js_or (field evt (js ''filename'')) (JStr (js ''TC.csv''))\<rparr>)"
proof -
  let ?p = "showOk (done_notice evt) (setProgress (Some (Fin 100)) Completed (ui st))"
  have "snd (applyDoneUI evt ?p)" using assms by (simp add: applyDoneUI_ok)
  then obtain p2 where "applyDoneUI evt ?p = (p2, True)"
    by (cases "applyDoneUI evt ?p") auto
  then show ?thesis by (simp add: on_done_def Let_def)
qed

lemma on_done_stops: "\<exists>oc. fst (on_done st evt) = Stop oc"
  by (auto simp: on_done_def Let_def split: prod.splits bool.splits)

text \<open>
  Claim C7 (completion defaults). For a \<^verbatim>\<open>done\<close> event in which the usage counts, the
  elapsed time, every field of the statistics and the file name are missing (or the
  objects that hold them are), the run returns, every number shown is 0, the label is
  \<^verbatim>\<open>"-"\<close>, the limit list is empty and both the file name shown and \<^verbatim>\<open>lastFilename\<close> are
  \<^verbatim>\<open>"TC.csv"\<close>.
\<close>

theorem done_defaults:
  assumes "field evt (js ''type'') = Some (JStr (js ''done''))"
    and "nullish (opt_chain (field evt (js ''usage'')) (js ''input_tokens''))"
    and "nullish (opt_chain (field evt (js ''usage'')) (js ''output_tokens''))"
    and "nullish (field evt (js ''elapsed''))"
    and "nullish (field (stats_of evt) (js ''requirements_total''))"
    and "nullish (field (stats_of evt) (js ''test_cases_total''))"
    and "nullish (field (stats_of evt) (js ''requirements_not_testable''))"
    and "nullish (field (stats_of evt) (js ''requirements_limit_reached_total''))"
    and "nullish (field (stats_of evt) (js ''area_path''))"
    and "nullish (field (stats_of evt) (js ''project_id''))"
    and "nullish (field (stats_of evt) (js ''requirements_limit_reached_detail''))"
    and "falsy (field evt (js ''filename''))"
  shows "fst (handle_event now st evt) = Stop Returned \<and>
         m_input (ui (snd (handle_event now st evt))) = JNum 0 \<and>
         m_output (ui (snd (handle_event now st evt))) = JNum 0 \<and>
         m_time (ui (snd (handle_event now st evt))) = JNum 0 \<and>
         m_req (ui (snd (handle_event now st evt))) = JNum 0 \<and>
         m_tc (ui (snd (handle_event now st evt))) = JNum 0 \<and>
         m_not (ui (snd (handle_event now st evt))) = JNum 0 \<and>
         m_limit (ui (snd (handle_event now st evt))) = JNum 0 \<and>
         m_area (ui (snd (handle_event now st evt))) = JStr (js ''-'') \<and>
         limit_items (ui (snd (handle_event now st evt))) = [] \<and>
         ready_filename (ui (snd (handle_event now st evt))) = JStr (js ''TC.csv'') \<and>
         lastFilename (snd (handle_event now st evt)) = JStr (js ''TC.csv'')"
proof -
  have h: "handle_event now st evt = on_done st evt"
    using assms(1) by (rule handle_done)
  have d: "detail_of (stats_of evt) = []"
    using assms(11) by (auto simp: detail_of_def nullish_def)
  then have ok: "JNull \<notin> set (detail_of (stats_of evt))" by simp
  have items: "limit_items (fst (applyDoneUI evt p)) = []" for p
    using d by (simp add: applyDoneUI_def Let_def)
  show ?thesis
    using assms(2-10,12) unfolding h
    by (simp add: on_done_ok[OF ok] applyDoneUI_metrics items js_coalesce_nullish js_or_falsy)
qed

theorem done_defaults_witness:
  "field (JObj [(js ''type'', JStr (js ''done''))]) (js ''type'') = Some (JStr (js ''done'')) \<and>
   nullish (opt_chain (field (JObj [(js ''type'', JStr (js ''done''))]) (js ''usage''))
              (js ''input_tokens'')) \<and>
   nullish (opt_chain (field (JObj [(js ''type'', JStr (js ''done''))]) (js ''usage''))
              (js ''output_tokens'')) \<and>
   nullish (field (JObj [(js ''type'', JStr (js ''done''))]) (js ''elapsed'')) \<and>
   nullish (field (stats_of (JObj [(js ''type'', JStr (js ''done''))]))
              (js ''requirements_total'')) \<and>
   nullish (field (stats_of (JObj [(js ''type'', JStr (js ''done''))]))
              (js ''test_cases_total'')) \<and>
   nullish (field (stats_of (JObj [(js ''type'', JStr (js ''done''))]))
              (js ''requirements_not_testable'')) \<and>
   nullish (field (stats_of (JObj [(js ''type'', JStr (js ''done''))]))
              (js ''requirements_limit_reached_total'')) \<and>
   nullish (field (stats_of (JObj [(js ''type'', JStr (js ''done''))])) (js ''area_path'')) \<and>
   nullish (field (stats_of (JObj [(js ''type'', JStr (js ''done''))])) (js ''project_id'')) \<and>
   nullish (field (stats_of (JObj [(js ''type'', JStr (js ''done''))]))
              (js ''requirements_limit_reached_detail'')) \<and>
   falsy (field (JObj [(js ''type'', JStr (js ''done''))]) (js ''filename'')) \<and>
   fst (handle_event seconds (start_run submitted) (JObj [(js ''type'', JStr (js ''done''))])) =
     Stop Returned \<and>
   m_input (ui (snd (handle_event seconds (start_run submitted)
     (JObj [(js ''type'', JStr (js ''done''))])))) = JNum 0 \<and>
   m_limit (ui (snd (handle_event seconds (start_run submitted)
     (JObj [(js ''type'', JStr (js ''done''))])))) = JNum 0 \<and>
   m_area (ui (snd (handle_event seconds (start_run submitted)
     (JObj [(js ''type'', JStr (js ''done''))])))) = JStr (js ''-'') \<and>
   ready_filename (ui (snd (handle_event seconds (start_run submitted)
     (JObj [(js ''type'', JStr (js ''done''))])))) = JStr (js ''TC.csv'') \<and>
   lastFilename (snd (handle_event seconds (start_run submitted)
     (JObj [(js ''type'', JStr (js ''done''))]))) = JStr (js ''TC.csv'')"
proof -
  let ?e = "JObj [(js ''type'', JStr (js ''done''))]"
  have ty: "field ?e (js ''type'') = Some (JStr (js ''done''))"
    by (simp add: js_def)
  have s: "stats_of ?e = JObj []"
    by (simp add: stats_of_def js_eval)
  have n: "nullish (opt_chain (field ?e (js ''usage'')) k)" "nullish (field ?e (js ''elapsed''))"
    "nullish (field (stats_of ?e) k)" "falsy (field ?e (js ''filename''))" for k
    unfolding s by (simp_all add: js_eval)
  show ?thesis
    using done_defaults[OF ty n(1) n(1) n(2) n(3) n(3) n(3) n(3) n(3) n(3) n(3) n(4),
        of seconds "start_run submitted"] ty n
    by simp
qed

text \<open>
  Claim C8 (label precedence). For a \<^verbatim>\<open>done\<close> event the label shown is the area label
  whenever the statistics have one, whether or not they have a project label; it is the
  project label when only that one is there, and \<^verbatim>\<open>"-"\<close> when neither is. A label is
  there when it is neither \<^verbatim>\<open>undefined\<close> nor \<^verbatim>\<open>null\<close>.
\<close>

theorem label_precedence:
  assumes "field evt (js ''type'') = Some (JStr (js ''done''))"
  shows
  "(\<not> nullish (field (stats_of evt) (js ''area_path'')) \<longrightarrow>
      Some (m_area (ui (snd (handle_event now st evt)))) = field (stats_of evt) (js ''area_path'')) \<and>
   (nullish (field (stats_of evt) (js ''area_path'')) \<and>
    \<not> nullish (field (stats_of evt) (js ''project_id'')) \<longrightarrow>
      Some (m_area (ui (snd (handle_event now st evt)))) = field (stats_of evt) (js ''project_id'')) \<and>
   (nullish (field (stats_of evt) (js ''area_path'')) \<and>
    nullish (field (stats_of evt) (js ''project_id'')) \<longrightarrow>
      m_area (ui (snd (handle_event now st evt))) = JStr (js ''-''))"
  unfolding handle_done[OF assms]
  by (auto simp: on_done_ui applyDoneUI_metrics js_coalesce_def nullish_def split: option.splits)

theorem label_precedence_witness:
  "field (JObj [(js ''type'', JStr (js ''done'')),
                (js ''stats'', JObj [(js ''project_id'', JStr (js ''P-7'')),
                                     (js ''area_path'', JStr (js ''Billing''))])])
     (js ''type'') = Some (JStr (js ''done'')) \<and>
   \<not> nullish (field (stats_of (JObj [(js ''type'', JStr (js ''done'')),
                (js ''stats'', JObj [(js ''project_id'', JStr (js ''P-7'')),
                                     (js ''area_path'', JStr (js ''Billing''))])])) (js ''area_path'')) \<and>
   \<not> nullish (field (stats_of (JObj [(js ''type'', JStr (js ''done'')),
                (js ''stats'', JObj [(js ''project_id'', JStr (js ''P-7'')),
                                     (js ''area_path'', JStr (js ''Billing''))])])) (js ''project_id'')) \<and>
   m_area (ui (snd (handle_event seconds (start_run submitted)
     (JObj [(js ''type'', JStr (js ''done'')),
                (js ''stats'', JObj [(js ''project_id'', JStr (js ''P-7'')),
                                     (js ''area_path'', JStr (js ''Billing''))])])))) =
     JStr (js ''Billing'')"
proof -
  let ?e = "JObj [(js ''type'', JStr (js ''done'')),
                (js ''stats'', JObj [(js ''project_id'', JStr (js ''P-7'')),
                                     (js ''area_path'', JStr (js ''Billing''))])]"
  have ty: "field ?e (js ''type'') = Some (JStr (js ''done''))"
    by (simp add: js_def)
  have a: "field (stats_of ?e) (js ''area_path'') = Some (JStr (js ''Billing''))"
    "field (stats_of ?e) (js ''project_id'') = Some (JStr (js ''P-7''))"
    by (simp_all add: stats_of_def js_eval)
  show ?thesis
    using label_precedence[OF ty, of seconds "start_run submitted"] ty a
    by (simp add: nullish_def)
qed

subsection \<open>Terminal events\<close>

text \<open>
  Terminal events: what the loop guarantees. Let a line that is not blank parse to an
  event. If its type is \<^verbatim>\<open>done\<close> or \<^verbatim>\<open>error\<close>, the lines after it are never looked at:
  the result is the one for the lines up to and including it. If the lines before it have
  been consumed, a \<^verbatim>\<open>done\<close> event whose limit detail holds no \<^verbatim>\<open>null\<close> entry makes the
  consumer return, in the state \<^verbatim>\<open>on_done\<close> builds, and an \<^verbatim>\<open>error\<close> event makes it throw
  the Error that carries the event's code and message, with nothing else changed. By
  \<open>generateViaStream_lines\<close> the way the loop over the lines stops is the way
  \<^verbatim>\<open>generateViaStream\<close> ends.
\<close>

theorem terminal_event_halts:
  assumes nb: "js_trim line \<noteq> []" and p: "parse line = Some evt"
  shows
    "(field evt (js ''type'') = Some (JStr (js ''done'')) \<or>
      field evt (js ''type'') = Some (JStr (js ''error'')) \<longrightarrow>
        process_lines parse now st (pre @ line # post) =
        process_lines parse now st (pre @ [line])) \<and>
     (process_lines parse now st pre = (Continue, mid) \<and>
      field evt (js ''type'') = Some (JStr (js ''done'')) \<and>
      JNull \<notin> set (detail_of (stats_of evt)) \<longrightarrow>
        process_lines parse now st (pre @ line # post) =
        (Stop Returned, snd (on_done (mid\<lparr>history := history mid @ [evt]\<rparr>) evt))) \<and>
     (process_lines parse now st pre = (Continue, mid) \<and>
      field evt (js ''type'') = Some (JStr (js ''error'')) \<longrightarrow>
        process_lines parse now st (pre @ line # post) =
        (Stop (Threw (ServerReported (field evt (js ''code''))
                        (when_truthy (field evt (js ''message''))))),
         mid\<lparr>history := history mid @ [evt]\<rparr>))"
proof -
  have ple: "process_line parse now s line =
      handle_event now (s\<lparr>history := history s @ [evt]\<rparr>) evt" for s
    using nb p by (rule process_line_event)
  show ?thesis
  proof (intro conjI impI)
    assume t: "field evt (js ''type'') = Some (JStr (js ''done'')) \<or>
               field evt (js ''type'') = Some (JStr (js ''error''))"
    have stop: "\<exists>oc. fst (process_line parse now s line) = Stop oc" for s
      using t on_done_stops[of "s\<lparr>history := history s @ [evt]\<rparr>" evt]
      by (auto simp: ple handle_done handle_error on_error_def)
    show "process_lines parse now st (pre @ line # post) =
          process_lines parse now st (pre @ [line])"
    proof (cases "process_lines parse now st pre")
      case (Pair c s)
      show ?thesis
      proof (cases c)
        case Continue
        obtain oc s' where "process_line parse now s line = (Stop oc, s')"
          using stop[of s] by (cases "process_line parse now s line") auto
        then show ?thesis using Pair Continue
          by (simp add: process_lines_append)
      next
        case (Stop oc)
        then show ?thesis using Pair by (simp add: process_lines_append)
      qed
    qed
  next
    assume "process_lines parse now st pre = (Continue, mid) \<and>
        field evt (js ''type'') = Some (JStr (js ''done'')) \<and>
        JNull \<notin> set (detail_of (stats_of evt))"
    then show "process_lines parse now st (pre @ line # post) =
          (Stop Returned, snd (on_done (mid\<lparr>history := history mid @ [evt]\<rparr>) evt))"
      by (simp add: process_lines_append ple handle_done on_done_ok)
  next
    assume "process_lines parse now st pre = (Continue, mid) \<and>
        field evt (js ''type'') = Some (JStr (js ''error''))"
    then show "process_lines parse now st (pre @ line # post) =
          (Stop (Threw (ServerReported (field evt (js ''code''))
                          (when_truthy (field evt (js ''message''))))),
           mid\<lparr>history := history mid @ [evt]\<rparr>)"
      by (simp add: process_lines_append ple handle_error on_error_def)
  qed
qed

theorem terminal_event_halts_witness:
  "js_trim (js done_line) \<noteq> [] \<and> sample_parse (js done_line) = Some done_event \<and>
   field done_event (js ''type'') = Some (JStr (js ''done'')) \<and>
   JNull \<notin> set (detail_of (stats_of done_event)) \<and>
   process_lines sample_parse seconds (start_run submitted) [js meta_line] =
     (Continue, snd (on_meta ((start_run submitted)\<lparr>history := [meta_event]\<rparr>) meta_event)) \<and>
   process_lines sample_parse seconds (start_run submitted)
     ([js meta_line] @ js done_line # [js progress_line, js error_line]) =
   process_lines sample_parse seconds (start_run submitted) ([js meta_line] @ [js done_line]) \<and>
   fst (process_lines sample_parse seconds (start_run submitted)
     ([js meta_line] @ js done_line # [js progress_line, js error_line])) = Stop Returned \<and>
   history (snd (process_lines sample_parse seconds (start_run submitted)
     ([js meta_line] @ js done_line # [js progress_line, js error_line]))) =
     [meta_event, done_event] \<and>
   lastCsvB64 (snd (process_lines sample_parse seconds (start_run submitted)
     ([js meta_line] @ js done_line # [js progress_line, js error_line]))) =
     Some (JStr (js ''YQ=='')) \<and>
   js_trim (js error_line) \<noteq> [] \<and> sample_parse (js error_line) = Some error_event \<and>
   field error_event (js ''type'') = Some (JStr (js ''error'')) \<and>
   process_lines sample_parse seconds (start_run submitted)
     ([js meta_line] @ js error_line # [js done_line]) =
     (Stop (Threw (ServerReported (Some (JStr (js ''ERR_ENGINE''))) None)),
      (snd (on_meta ((start_run submitted)\<lparr>history := [meta_event]\<rparr>) meta_event))
        \<lparr>history := [meta_event, error_event]\<rparr>)"
proof -
  let ?s = "start_run submitted"
  let ?s1 = "snd (on_meta (?s\<lparr>history := [meta_event]\<rparr>) meta_event)"
  have nb: "js_trim (js done_line) \<noteq> []" "js_trim (js error_line) \<noteq> []"
    by (simp_all add: line_eval js_def)
  have p: "sample_parse (js done_line) = Some done_event"
    "sample_parse (js error_line) = Some error_event"
    by (simp_all add: line_eval js_def)
  have ty: "field done_event (js ''type'') = Some (JStr (js ''done''))"
    "field error_event (js ''type'') = Some (JStr (js ''error''))"
    by (simp_all add: done_event_def error_event_def js_def)
  have dt: "JNull \<notin> set (detail_of (stats_of done_event))"
    by (simp add: detail_of_def stats_of_def done_event_def js_eval)
  have pre: "process_lines sample_parse seconds ?s [js meta_line] = (Continue, ?s1)"
    by (simp add: line_eval js_eval state_eval event_eval)
  have h1: "history ?s1 = [meta_event]"
    by (simp add: on_meta_def Let_def)
  have out: "field error_event (js ''code'') = Some (JStr (js ''ERR_ENGINE''))"
    "when_truthy (field error_event (js ''message'')) = None"
    by (simp_all add: error_event_def js_eval)
  have d: "history (snd (on_done (?s1\<lparr>history := history ?s1 @ [done_event]\<rparr>) done_event)) =
      [meta_event, done_event]"
    "lastCsvB64 (snd (on_done (?s1\<lparr>history := history ?s1 @ [done_event]\<rparr>) done_event)) =
      Some (JStr (js ''YQ==''))"
    unfolding on_done_ok[OF dt] h1 by (simp_all add: done_event_def js_eval)
  let ?run = "process_lines sample_parse seconds ?s
      ([js meta_line] @ js done_line # [js progress_line, js error_line])"
  note dn = terminal_event_halts[where parse = sample_parse and line = "js done_line"
        and evt = done_event and now = seconds and st = ?s and pre = "[js meta_line]"
        and post = "[js progress_line, js error_line]" and mid = ?s1, OF nb(1) p(1)]
  note er = terminal_event_halts[where parse = sample_parse and line = "js error_line"
        and evt = error_event and now = seconds and st = ?s and pre = "[js meta_line]"
        and post = "[js done_line]" and mid = ?s1, OF nb(2) p(2)]
  have a: "?run = process_lines sample_parse seconds ?s ([js meta_line] @ [js done_line])"
    using dn ty(1) by blast
  have b: "?run =
      (Stop Returned, snd (on_done (?s1\<lparr>history := history ?s1 @ [done_event]\<rparr>) done_event))"
    using dn ty(1) dt pre by blast
  have c: "process_lines sample_parse seconds ?s ([js meta_line] @ js error_line # [js done_line]) =
      (Stop (Threw (ServerReported (field error_event (js ''code''))
                      (when_truthy (field error_event (js ''message''))))),
       ?s1\<lparr>history := history ?s1 @ [error_event]\<rparr>)"
    using er ty(2) pre by blast
  have b1: "fst ?run = Stop Returned" "history (snd ?run) = [meta_event, done_event]"
    "lastCsvB64 (snd ?run) = Some (JStr (js ''YQ==''))"
    unfolding b using d by simp_all
  have c1: "process_lines sample_parse seconds ?s ([js meta_line] @ js error_line # [js done_line]) =
      (Stop (Threw (ServerReported (Some (JStr (js ''ERR_ENGINE''))) None)),
       ?s1\<lparr>history := [meta_event, error_event]\<rparr>)"
    unfolding c out h1 by simp
  show ?thesis
    using nb p ty dt pre a b1 c1 by blast
qed

text \<open>
  Claim C6 (terminal events halt consumption) against the code. A \<^verbatim>\<open>done\<close> line does not
  always make the consumer return with success. When the limit detail of the event holds
  a \<^verbatim>\<open>null\<close> entry, \<^verbatim>\<open>applyDoneUI\<close> reads \<^verbatim>\<open>item.requirement\<close> of it (line 283) and throws a
  TypeError: the success toast has been shown, the ready card is not, and the payload of
  the event is not stored. And when a line \<^verbatim>\<open>null\<close> comes before the \<^verbatim>\<open>done\<close> line, the
  consumer has thrown at \<^verbatim>\<open>evt.type\<close> (line 357) and the \<^verbatim>\<open>done\<close> line is never handled.
  In both runs no later line is looked at.
\<close>

theorem done_line_type_error:
  "js_trim (js null_detail_line) \<noteq> [] \<and>
   sample_parse (js null_detail_line) = Some null_detail_event \<and>
   field null_detail_event (js ''type'') = Some (JStr (js ''done'')) \<and>
   fst (process_lines sample_parse seconds (start_run submitted)
          [js meta_line, js null_detail_line, js progress_line]) = Stop (Threw TypeError) \<and>
   history (snd (process_lines sample_parse seconds (start_run submitted)
          [js meta_line, js null_detail_line, js progress_line])) =
     [meta_event, null_detail_event] \<and>
   toasts (ui (snd (process_lines sample_parse seconds (start_run submitted)
          [js meta_line, js null_detail_line, js progress_line]))) = [Generated] \<and>
   ready_card_shown (ui (snd (process_lines sample_parse seconds (start_run submitted)
          [js meta_line, js null_detail_line, js progress_line]))) = False \<and>
   lastCsvB64 (snd (process_lines sample_parse seconds (start_run submitted)
          [js meta_line, js null_detail_line, js progress_line])) = None \<and>
   fst (generateViaStream sample_parse seconds submitted
          [bytes_of null_detail_line @ [0x0A]]) = Threw TypeError \<and>
   fst (process_lines sample_parse seconds (start_run submitted)
          [js null_line, js done_line]) = Stop (Threw TypeError) \<and>
   history (snd (process_lines sample_parse seconds (start_run submitted)
          [js null_line, js done_line])) = [JNull]"
proof -
  have l: "js_trim (js null_detail_line) \<noteq> []"
    "sample_parse (js null_detail_line) = Some null_detail_event"
    "field null_detail_event (js ''type'') = Some (JStr (js ''done''))"
    by (simp_all add: line_eval null_detail_event_def js_def)
  have a: "process_lines sample_parse seconds (start_run submitted)
      [js meta_line, js null_detail_line, js progress_line] = (c, st) \<Longrightarrow>
      c = Stop (Threw TypeError) \<and> history st = [meta_event, null_detail_event] \<and>
      toasts (ui st) = [Generated] \<and> ready_card_shown (ui st) = False \<and>
      lastCsvB64 st = None" for c st
    by (auto simp add: line_eval js_eval state_eval event_eval applyDoneUI_def stats_of_def
        detail_of_def done_notice_def)
  have b: "fst (generateViaStream sample_parse seconds submitted
      [bytes_of null_detail_line @ [0x0A]]) = Threw TypeError"
    by (simp add: generateViaStream_def decoder_eval line_eval js_eval state_eval event_eval
        applyDoneUI_def stats_of_def detail_of_def done_notice_def)
  have c: "process_lines sample_parse seconds (start_run submitted)
      [js null_line, js done_line] = (c, st) \<Longrightarrow>
      c = Stop (Threw TypeError) \<and> history st = [JNull]" for c st
    by (auto simp add: line_eval js_eval state_eval event_eval)
  show ?thesis
    using l a[OF prod.collapse[symmetric]] b c[OF prod.collapse[symmetric]] by blast
qed

subsection \<open>The end of the stream\<close>

lemma split_nl_no_newline: "0x0A \<notin> set s \<Longrightarrow> split_nl s = [s]"
  by (induction s) auto

lemma last_split_nl_no_newline: "0x0A \<notin> set (last (split_nl s))"
  by (induction s) (auto split: list.splits)

lemma trailing_fragment_not_a_line:
  assumes "0x0A \<notin> set tail"
  shows "butlast (split_nl (s @ tail)) = butlast (split_nl s)"
proof -
  have "0x0A \<notin> set (last (split_nl s) @ tail)"
    using assms last_split_nl_no_newline[of s] by simp
  then have "split_nl (last (split_nl s) @ tail) = [last (split_nl s) @ tail]"
    by (rule split_nl_no_newline)
  then show ?thesis
    by (simp add: butlast_split_append)
qed

lemma split_nl_join:
  "concat (map (\<lambda>l. l @ [0x0A]) (butlast (split_nl s))) @ last (split_nl s) = s"
  by (induction s) (auto split: list.splits)

lemma handle_event_continue:
  assumes "evt \<noteq> JNull" "field evt (js ''type'') \<noteq> Some (JStr (js ''done''))"
    "field evt (js ''type'') \<noteq> Some (JStr (js ''error''))"
  shows "fst (handle_event now st evt) = Continue"
  using assms by (simp add: handle_event_def on_meta_def on_progress_def Let_def)

lemma process_line_passes:
  "passes parse line \<Longrightarrow> fst (process_line parse now st line) = Continue"
  by (auto simp: passes_def process_line_def handle_event_continue split: option.splits)

lemma process_lines_pass:
  "list_all (passes parse) lines \<Longrightarrow> fst (process_lines parse now st lines) = Continue"
proof (induction lines arbitrary: st)
  case Nil
  then show ?case by simp
next
  case (Cons line rest)
  then have "fst (process_line parse now st line) = Continue"
    by (simp add: process_line_passes)
  then obtain st' where "process_line parse now st line = (Continue, st')"
    by (cases "process_line parse now st line") auto
  then show ?case using Cons by simp
qed

lemma stream_end_without_terminal:
  assumes "list_all (passes parse)
             (butlast (split_nl (snd (decode_stream new_decoder (concat chunks)))))"
  shows "fst (generateViaStream parse now st chunks) = Threw StreamEnded"
proof -
  let ?r = "process_lines parse now (start_run st)
      (butlast (split_nl (snd (decode_stream new_decoder (concat chunks)))))"
  have "fst ?r = Continue" using assms by (rule process_lines_pass)
  then obtain st' where "?r = (Continue, st')" by (cases ?r) auto
  then show ?thesis by (simp add: generateViaStream_lines)
qed

text \<open>
  Claim C5 (truncated stream) against the code. A stream whose only line is \<^verbatim>\<open>null\<close>
  holds no \<^verbatim>\<open>done\<close> and no \<^verbatim>\<open>error\<close> event, yet the consumer does not reach the end of
  the stream: \<^verbatim>\<open>JSON.parse\<close> returns \<^verbatim>\<open>null\<close>, and reading \<^verbatim>\<open>evt.type\<close> throws a
  TypeError. The lemmas above give what holds: the segment after the last newline is
  never a line, and when every complete line is passed over the stream-ended Error is
  thrown.
\<close>

theorem null_line_type_error:
  "snd (decode_stream new_decoder (bytes_of null_line @ [0x0A])) = js null_line @ [0x0A] \<and>
   sample_parse (js null_line) = Some JNull \<and>
   fst (generateViaStream sample_parse seconds submitted [bytes_of null_line @ [0x0A]]) =
     Threw TypeError"
  by (simp add: generateViaStream_def decoder_eval line_eval js_def process_line_def
      handle_event_def)

subsection \<open>Download\<close>

lemma match_here_sound:
  assumes "match_here s = Some v"
  shows "\<exists>key post. s = key @ [0x22] @ v @ [0x22] @ post \<and>
           list_all2 ci_match key (js ''filename='') \<and> v \<noteq> [] \<and> 0x22 \<notin> set v"
proof -
  let ?n = "length (js ''filename='' @ [0x22 :: 16 word])"
  let ?rest = "drop ?n s"
  from assms have len: "?n \<le> length s"
    and m: "list_all2 ci_match (take ?n s) (js ''filename='' @ [0x22])"
    and v: "v = takeWhile (\<lambda>c. c \<noteq> 0x22) ?rest" and ne: "v \<noteq> []"
    and r: "dropWhile (\<lambda>c. c \<noteq> 0x22) ?rest \<noteq> []"
    by (auto simp: match_here_def Let_def split: if_splits)
  from m obtain key q where tk: "take ?n s = key @ [q]"
    and k: "list_all2 ci_match key (js ''filename='')" and q: "ci_match q 0x22"
    by (auto simp: list_all2_append2 list_all2_Cons2)
  from q have q22: "q = 0x22" by (simp add: ci_match_def)
  from r obtain post where d: "dropWhile (\<lambda>c. c \<noteq> 0x22) ?rest = 0x22 # post"
    using hd_dropWhile[of "\<lambda>c. c \<noteq> 0x22" ?rest]
    by (cases "dropWhile (\<lambda>c. c \<noteq> 0x22) ?rest") auto
  have "?rest = v @ 0x22 # post"
    by (metis takeWhile_dropWhile_id v d)
  then have "s = key @ [0x22] @ v @ [0x22] @ post"
    using append_take_drop_id[of ?n s] tk q22 by simp
  moreover have "0x22 \<notin> set v"
    using v by (auto dest: set_takeWhileD)
  ultimately show ?thesis using k ne by blast
qed

lemma match_filename_sound:
  "match_filename s = Some v \<Longrightarrow>
   \<exists>pre key post. s = pre @ key @ [0x22] @ v @ [0x22] @ post \<and>
      list_all2 ci_match key (js ''filename='') \<and> v \<noteq> [] \<and> 0x22 \<notin> set v"
proof (induction s)
  case Nil
  then show ?case by simp
next
  case (Cons c cs)
  show ?case
  proof (cases "match_here (c # cs)")
    case None
    then have "match_filename cs = Some v" using Cons.prems by simp
    then obtain pre key post where "cs = pre @ key @ [0x22] @ v @ [0x22] @ post"
      "list_all2 ci_match key (js ''filename='')" "v \<noteq> []" "0x22 \<notin> set v"
      using Cons.IH by blast
    then have "c # cs = (c # pre) @ key @ [0x22] @ v @ [0x22] @ post \<and>
      list_all2 ci_match key (js ''filename='') \<and> v \<noteq> [] \<and> 0x22 \<notin> set v" by simp
    then show ?thesis by blast
  next
    case (Some w)
    then have "w = v" using Cons.prems by simp
    with Some obtain key post where "c # cs = [] @ key @ [0x22] @ v @ [0x22] @ post \<and>
      list_all2 ci_match key (js ''filename='') \<and> v \<noteq> [] \<and> 0x22 \<notin> set v"
      using match_here_sound[of "c # cs" v] by auto
    then show ?thesis by blast
  qed
qed

lemma match_filename_nonempty: "match_filename s = Some v \<Longrightarrow> v \<noteq> []"
  using match_filename_sound by blast

text \<open>
  What the pattern finds is a quoted, non-empty value after \<^verbatim>\<open>filename=\<close>, in any mix of
  capitals; a header that starts with such a part gives its value, and a position where
  the pattern does not match is passed.
\<close>

lemma match_here_hit:
  assumes "list_all2 ci_match key (js ''filename='')" "v \<noteq> []" "0x22 \<notin> set v"
  shows "match_here (key @ [0x22] @ v @ [0x22] @ post) = Some v"
proof -
  have len: "length key = length (js ''filename='')"
    using assms(1) by (rule list_all2_lengthD)
  have tk: "takeWhile (\<lambda>c. c \<noteq> 0x22) (v @ 0x22 # post) = v"
    using assms(3) by (induction v) auto
  have dr: "dropWhile (\<lambda>c. c \<noteq> 0x22) (v @ 0x22 # post) = 0x22 # post"
    using assms(3) by (induction v) auto
  have q: "ci_match 0x22 0x22" by (simp add: ci_match_def)
  show ?thesis
    using assms(1,2) len tk dr q
    by (simp add: match_here_def Let_def list_all2_appendI)
qed

lemma match_filename_hit:
  assumes "list_all2 ci_match key (js ''filename='')" "v \<noteq> []" "0x22 \<notin> set v"
  shows "match_filename (key @ [0x22] @ v @ [0x22] @ post) = Some v"
proof -
  have "key \<noteq> []" using assms(1) by (auto simp: js_def)
  then obtain c cs where "key @ [0x22] @ v @ [0x22] @ post = c # cs"
    by (cases key) auto
  then show ?thesis
    using match_here_hit[OF assms, of post] by simp
qed

lemma match_filename_skip:
  "match_here (c # cs) = None \<Longrightarrow> match_filename (c # cs) = match_filename cs"
  by simp

text \<open>A code unit below 256 is the byte stored for it.\<close>

lemma ucast_byte_exact: "c \<le> 0xFF \<Longrightarrow> (ucast (ucast c :: byte) :: 16 word) = c"
proof -
  assume a: "c \<le> 0xFF"
  then have le: "unat c < 2 ^ 8" by (simp add: word_le_nat_alt)
  have "unat (ucast (ucast c :: byte) :: 16 word) = take_bit 8 (unat c)"
    by (simp add: unsigned_ucast_eq unsigned_take_bit_eq)
  also have "\<dots> = unat c"
    using le by (simp add: take_bit_nat_eq_self)
  finally show ?thesis by (simp only: word_unat_eq_iff)
qed


lemma download_inline:
  assumes "lastCsvB64 st = Some b64" "truthy b64"
  shows "download atob url resp st =
     (case atob b64 of
        None \<Rightarrow> \<lparr>saved = None, requests = 0, shown = ExceptionMessage\<rparr>
      | Some binary \<Rightarrow>
          \<lparr>saved = Some (js_or (Some (lastFilename st)) (JStr (js ''TC.csv'')), map ucast binary),
           requests = 0, shown = DownloadStarted\<rparr>)"
  using assms
  by (simp add: download_def base64ToUint8Array_def triggerDownload_def split: option.splits)

lemma download_no_payload:
  assumes "falsy (lastCsvB64 st)"
  shows "download atob url resp st = download_fallback url resp"
  using assms by (auto simp: download_def falsy_def split: option.splits)

lemma saved_name:
  "js_or (Some (case match_filename cd of Some v \<Rightarrow> JStr v | None \<Rightarrow> JStr (js ''TC.csv'')))
         (JStr (js ''TC.csv'')) =
   JStr (case match_filename cd of Some v \<Rightarrow> v | None \<Rightarrow> js ''TC.csv'')"
  by (auto simp: js_or_def when_truthy_def falsy_def js_def dest: match_filename_nonempty
      split: option.splits)

text \<open>
  Claim C9 (download priority) does not hold as stated: without an inline payload a
  request is not always made. When the form has no \<^verbatim>\<open>data-download-url\<close>, the handler
  shows the message of \<^verbatim>\<open>UI_DOWNLOAD_URL_MISSING\<close> and stops.
\<close>

theorem download_without_url_counterexample:
  "lastCsvB64 submitted = None \<and>
   requests (download sample_atob None (Response True [0x61] None) submitted) = 0 \<and>
   saved (download sample_atob None (Response True [0x61] None) submitted) = None"
  by (simp add: download_def download_fallback_def falsy_def state_eval)

text \<open>
  Claim C9, amended. With an inline payload no request is made; the file saved has the
  bytes \<^verbatim>\<open>atob\<close> gives for the payload, one byte for each code unit and the same value
  when the code units are below 256, under the name \<^verbatim>\<open>lastFilename\<close>; when \<^verbatim>\<open>atob\<close> throws
  nothing is saved. Without a payload and without a download URL nothing is requested or
  saved. Without a payload and with a download URL exactly one request is made: a
  rejected request or a response that is not \<^verbatim>\<open>ok\<close> saves nothing, and a response that is
  \<^verbatim>\<open>ok\<close> saves its body under the name the pattern finds in \<^verbatim>\<open>Content-Disposition\<close>, or
  \<^verbatim>\<open>"TC.csv"\<close> when the header is missing or has no match.
\<close>

theorem download_priority:
  "(lastCsvB64 st = Some b64 \<and> truthy b64 \<longrightarrow>
      requests (download atob url resp st) = 0 \<and>
      (atob b64 = None \<longrightarrow> saved (download atob url resp st) = None) \<and>
      (\<forall>binary. atob b64 = Some binary \<longrightarrow>
         saved (download atob url resp st) =
           Some (js_or (Some (lastFilename st)) (JStr (js ''TC.csv'')), map ucast binary) \<and>
         (list_all (\<lambda>c. c \<le> 0xFF) binary \<longrightarrow>
            map ucast (map ucast binary :: byte list) = binary))) \<and>
   (falsy (lastCsvB64 st) \<and> falsy (map_option JStr url) \<longrightarrow>
      download atob url resp st = \<lparr>saved = None, requests = 0, shown = UrlMissing\<rparr>) \<and>
   (falsy (lastCsvB64 st) \<and> \<not> falsy (map_option JStr url) \<longrightarrow>
      requests (download atob url resp st) = 1 \<and>
      (resp = Rejected \<longrightarrow> saved (download atob url resp st) = None) \<and>
      (\<forall>blob header. resp = Response False blob header \<longrightarrow>
         saved (download atob url resp st) = None \<and>
         shown (download atob url resp st) = DownloadFailed) \<and>
      (\<forall>blob header. resp = Response True blob header \<longrightarrow>
         saved (download atob url resp st) =
           Some (JStr (case match_filename (case header of None \<Rightarrow> [] | Some h \<Rightarrow> h) of
                         Some v \<Rightarrow> v | None \<Rightarrow> js ''TC.csv''),
                 blob)))"
proof (intro conjI impI)
  assume a: "lastCsvB64 st = Some b64 \<and> truthy b64"
  then have d: "download atob url resp st =
     (case atob b64 of
        None \<Rightarrow> \<lparr>saved = None, requests = 0, shown = ExceptionMessage\<rparr>
      | Some binary \<Rightarrow>
          \<lparr>saved = Some (js_or (Some (lastFilename st)) (JStr (js ''TC.csv'')), map ucast binary),
           requests = 0, shown = DownloadStarted\<rparr>)"
    by (simp add: download_inline)
  show "requests (download atob url resp st) = 0"
    unfolding d by (simp split: option.splits)
  show "saved (download atob url resp st) = None" if "atob b64 = None"
    unfolding d using that by simp
  have exact: "list_all (\<lambda>c. c \<le> 0xFF) binary \<Longrightarrow>
      map ucast (map ucast binary :: byte list) = binary" for binary :: jsstring
    by (induction binary) (simp_all add: ucast_byte_exact)
  show "\<forall>binary. atob b64 = Some binary \<longrightarrow>
         saved (download atob url resp st) =
           Some (js_or (Some (lastFilename st)) (JStr (js ''TC.csv'')), map ucast binary) \<and>
         (list_all (\<lambda>c. c \<le> 0xFF) binary \<longrightarrow>
            map ucast (map ucast binary :: byte list) = binary)"
    unfolding d using exact by simp
next
  assume "falsy (lastCsvB64 st) \<and> falsy (map_option JStr url)"
  then show "download atob url resp st = \<lparr>saved = None, requests = 0, shown = UrlMissing\<rparr>"
    by (simp add: download_no_payload download_fallback_def)
next
  assume a: "falsy (lastCsvB64 st) \<and> \<not> falsy (map_option JStr url)"
  then have d: "download atob url resp st = downloadCsvNoReload resp"
    by (simp add: download_no_payload download_fallback_def)
  show "requests (download atob url resp st) = 1"
    unfolding d by (simp add: downloadCsvNoReload_def Let_def split: response.splits)
  show "saved (download atob url resp st) = None" if "resp = Rejected"
    unfolding d using that by (simp add: downloadCsvNoReload_def)
  show "\<forall>blob header. resp = Response False blob header \<longrightarrow>
         saved (download atob url resp st) = None \<and>
         shown (download atob url resp st) = DownloadFailed"
    unfolding d by (simp add: downloadCsvNoReload_def)
  show "\<forall>blob header. resp = Response True blob header \<longrightarrow>
         saved (download atob url resp st) =
           Some (JStr (case match_filename (case header of None \<Rightarrow> [] | Some h \<Rightarrow> h) of
                         Some v \<Rightarrow> v | None \<Rightarrow> js ''TC.csv''),
                 blob)"
    unfolding d by (simp add: downloadCsvNoReload_def Let_def triggerDownload_def saved_name)
qed

lemma sample_header_match: "match_filename sample_header = Some (js ''cases.csv'')"
  by (simp add: sample_header_def match_here_def ci_match_def js_def)

theorem download_priority_witness:
  "lastCsvB64 (submitted\<lparr>lastCsvB64 := Some (JStr (js ''YQ==''))\<rparr>) = Some (JStr (js ''YQ=='')) \<and>
   truthy (JStr (js ''YQ=='')) \<and> sample_atob (JStr (js ''YQ=='')) = Some [0x61] \<and>
   list_all (\<lambda>c. c \<le> 0xFF) [0x61 :: 16 word] \<and>
   requests (download sample_atob (Some (js ''/download/'')) Rejected
      (submitted\<lparr>lastCsvB64 := Some (JStr (js ''YQ==''))\<rparr>)) = 0 \<and>
   saved (download sample_atob (Some (js ''/download/'')) Rejected
      (submitted\<lparr>lastCsvB64 := Some (JStr (js ''YQ==''))\<rparr>)) =
     Some (JStr (js ''TC.csv''), [0x61]) \<and>
   falsy (lastCsvB64 submitted) \<and> \<not> falsy (map_option JStr (Some (js ''/download/''))) \<and>
   requests (download sample_atob (Some (js ''/download/''))
      (Response True [0x61, 0x2C, 0x62] (Some sample_header)) submitted) = 1 \<and>
   saved (download sample_atob (Some (js ''/download/''))
      (Response True [0x61, 0x2C, 0x62] (Some sample_header)) submitted) =
     Some (JStr (js ''cases.csv''), [0x61, 0x2C, 0x62]) \<and>
   saved (download sample_atob (Some (js ''/download/''))
      (Response True [0x61, 0x2C, 0x62] None) submitted) =
     Some (JStr (js ''TC.csv''), [0x61, 0x2C, 0x62]) \<and>
   requests (download sample_atob (Some (js ''/download/''))
      (Response False [] None) submitted) = 1 \<and>
   saved (download sample_atob (Some (js ''/download/''))
      (Response False [] None) submitted) = None \<and>
   falsy (map_option JStr None) \<and>
   download sample_atob None (Response True [0x61] None) submitted =
     \<lparr>saved = None, requests = 0, shown = UrlMissing\<rparr>"
proof -
  let ?inl = "submitted\<lparr>lastCsvB64 := Some (JStr (js ''YQ==''))\<rparr>"
  let ?url = "Some (js ''/download/'')"
  have h: "lastCsvB64 ?inl = Some (JStr (js ''YQ==''))" "truthy (JStr (js ''YQ==''))"
    "sample_atob (JStr (js ''YQ=='')) = Some [0x61]" "list_all (\<lambda>c. c \<le> 0xFF) [0x61 :: 16 word]"
    "falsy (lastCsvB64 submitted)" "\<not> falsy (map_option JStr ?url)"
    "falsy (map_option JStr None)"
    by (simp_all add: sample_atob_def js_def falsy_def state_eval)
  have n: "js_or (Some (lastFilename ?inl)) (JStr (js ''TC.csv'')) = JStr (js ''TC.csv'')"
    by (simp add: js_eval state_eval)
  have m: "match_filename [] = None" by simp
  note a = download_priority[of ?inl "JStr (js ''YQ=='')" sample_atob ?url Rejected]
  note b = download_priority[of submitted b64 sample_atob ?url
      "Response True [0x61, 0x2C, 0x62] (Some sample_header)" for b64]
  note c = download_priority[of submitted b64 sample_atob ?url
      "Response True [0x61, 0x2C, 0x62] None" for b64]
  note d = download_priority[of submitted b64 sample_atob ?url "Response False [] None" for b64]
  note e = download_priority[of submitted b64 sample_atob None "Response True [0x61] None" for b64]
  have a1: "requests (download sample_atob ?url Rejected ?inl) = 0"
    "saved (download sample_atob ?url Rejected ?inl) = Some (JStr (js ''TC.csv''), [0x61])"
    using a h(1-4) n by simp_all
  have b1: "requests (download sample_atob ?url
      (Response True [0x61, 0x2C, 0x62] (Some sample_header)) submitted) = 1"
    "saved (download sample_atob ?url
      (Response True [0x61, 0x2C, 0x62] (Some sample_header)) submitted) =
     Some (JStr (js ''cases.csv''), [0x61, 0x2C, 0x62])"
    using b h(5,6) sample_header_match by simp_all
  have c1: "saved (download sample_atob ?url (Response True [0x61, 0x2C, 0x62] None) submitted) =
     Some (JStr (js ''TC.csv''), [0x61, 0x2C, 0x62])"
    using c h(5,6) m by simp
  have d1: "requests (download sample_atob ?url (Response False [] None) submitted) = 1"
    "saved (download sample_atob ?url (Response False [] None) submitted) = None"
    using d h(5,6) by simp_all
  have e1: "download sample_atob None (Response True [0x61] None) submitted =
     \<lparr>saved = None, requests = 0, shown = UrlMissing\<rparr>"
    using e h(5,7) by simp
  show ?thesis
    using h a1 b1 c1 d1 e1 by simp
qed

end
